theory Spec2Isabelle
  imports Main "HOL-Library.AList" "HOL-Library.Sublist"
begin

section \<open>Doxygen XML to LaTeX: the LatexGenerator of parse\_doxygen\_xml.py\<close>

text \<open>
  The script walks a BeautifulSoup tree and emits LaTeX for the seL4 manual. The
  embedding below follows \<^verbatim>\<open>LatexGenerator\<close> (the class that \<^verbatim>\<open>main\<close> instantiates), with
  the methods it inherits from \<^verbatim>\<open>Generator\<close> resolved as Python resolves them. Reading
  the file and parsing the XML are outside the embedding: every function takes the parsed
  tree.

  A Python string is a \<^typ>\<open>string\<close> whose characters are its code points, which are
  taken to be below 256 (the Latin-1 range); the backslash, which a HOL string literal
  cannot hold, is written \<open>BS\<close>. Every Python exception the code can raise is a value of
  \<open>error\<close>, and a function that can raise returns \<open>error + 'a\<close>.
\<close>

subsection \<open>Errors\<close>

datatype error = KeyError | AttributeError | IndexError | StopIteration | TypeError

definition ebind :: "error + 'a \<Rightarrow> ('a \<Rightarrow> error + 'b) \<Rightarrow> error + 'b" where
  "ebind x f = (case x of Inl e \<Rightarrow> Inl e | Inr v \<Rightarrow> f v)"

abbreviation BS :: char where
  "BS \<equiv> CHR 0x5C"

subsection \<open>The parsed tree\<close>

text \<open>
  A node of the soup is a \<^verbatim>\<open>NavigableString\<close> (\<open>Text\<close>; its \<^verbatim>\<open>name\<close> is \<^verbatim>\<open>None\<close>) or a
  \<^verbatim>\<open>Tag\<close> with its name, its attributes and its \<^verbatim>\<open>contents\<close>.
\<close>

datatype node = Text string | Tag string "(string \<times> string) list" "node list"

fun contents :: "node \<Rightarrow> node list" where
  "contents (Text s) = []"
| "contents (Tag n a cs) = cs"

fun is_tag :: "string \<Rightarrow> node \<Rightarrow> bool" where
  "is_tag t (Text s) = False"
| "is_tag t (Tag n a cs) = (n = t)"

text \<open>\<^verbatim>\<open>Tag.descendants\<close>: every node below, in document order.\<close>

fun descendants :: "node \<Rightarrow> node list" where
  "descendants (Text s) = []"
| "descendants (Tag n a cs) = concat (map (\<lambda>c. c # descendants c) cs)"

text \<open>\<^verbatim>\<open>find_all(t)\<close>, \<^verbatim>\<open>find_all(t, recursive=False)\<close> and \<^verbatim>\<open>find(t)\<close> (also written
  \<^verbatim>\<open>node.t\<close>), which is \<^verbatim>\<open>None\<close> when there is no such tag.\<close>

definition find_all :: "string \<Rightarrow> node \<Rightarrow> node list" where
  "find_all t nd = filter (is_tag t) (descendants nd)"

definition find_all_children :: "string \<Rightarrow> node \<Rightarrow> node list" where
  "find_all_children t nd = filter (is_tag t) (contents nd)"

definition find_tag :: "string \<Rightarrow> node \<Rightarrow> node option" where
  "find_tag t nd = (case find_all t nd of [] \<Rightarrow> None | x # xs \<Rightarrow> Some x)"

text \<open>\<^verbatim>\<open>tag[key]\<close>: a missing attribute raises \<^verbatim>\<open>KeyError\<close>; subscripting \<^verbatim>\<open>None\<close> (a tag
  that \<^verbatim>\<open>find\<close> did not find) or a string with a string raises \<^verbatim>\<open>TypeError\<close>.\<close>

fun get_attr :: "node option \<Rightarrow> string \<Rightarrow> error + string" where
  "get_attr None key = Inl TypeError"
| "get_attr (Some (Text s)) key = Inl TypeError"
| "get_attr (Some (Tag n a cs)) key =
     (case map_of a key of None \<Rightarrow> Inl KeyError | Some v \<Rightarrow> Inr v)"

text \<open>\<^verbatim>\<open>.string\<close>: the string of a tag whose only child is a string, or whose only child
  is a tag with such a string; \<^verbatim>\<open>None\<close> otherwise.\<close>

fun node_string :: "node \<Rightarrow> string option" where
  "node_string (Text s) = Some s"
| "node_string (Tag n a [c]) = node_string c"
| "node_string (Tag n a cs) = None"

text \<open>\<^verbatim>\<open>.get_text()\<close> and \<^verbatim>\<open>.text\<close>: all the strings below, concatenated.\<close>

fun all_text :: "node \<Rightarrow> string" where
  "all_text (Text s) = s"
| "all_text (Tag n a cs) = concat (map all_text cs)"

subsection \<open>Python string helpers\<close>

text \<open>
  \<^verbatim>\<open>str.isspace\<close> of Python 3 on the code points below 256: tab, line feed, vertical
  tab, form feed, carriage return (0x09..0x0D), the four separators 0x1C..0x1F, the space,
  the next-line control 0x85 and the no-break space 0xA0. These are the characters that
  \<^verbatim>\<open>split()\<close> and \<^verbatim>\<open>strip()\<close> without arguments treat as whitespace.
\<close>

definition is_space :: "char \<Rightarrow> bool" where
  "is_space c = (c \<in> set [CHR 0x09, CHR 0x0A, CHR 0x0B, CHR 0x0C, CHR 0x0D,
                           CHR 0x1C, CHR 0x1D, CHR 0x1E, CHR 0x1F, CHR 0x20,
                           CHR 0x85, CHR 0xA0])"

text \<open>\<^verbatim>\<open>s.strip()\<close>.\<close>

definition strip :: "string \<Rightarrow> string" where
  "strip s = rev (dropWhile is_space (rev (dropWhile is_space s)))"

text \<open>\<^verbatim>\<open>s.split()\<close>: the maximal runs of non-whitespace characters, in order.\<close>

fun split_acc :: "string \<Rightarrow> string \<Rightarrow> string list" where
  "split_acc cur [] = (if cur = [] then [] else [cur])"
| "split_acc cur (c # cs) =
     (if is_space c then (if cur = [] then split_acc [] cs else cur # split_acc [] cs)
      else split_acc (cur @ [c]) cs)"

definition split :: "string \<Rightarrow> string list" where
  "split s = split_acc [] s"

text \<open>\<^verbatim>\<open>xs[-1]\<close>: \<^verbatim>\<open>IndexError\<close> on the empty list.\<close>

definition py_last :: "'a list \<Rightarrow> error + 'a" where
  "py_last xs = (if xs = [] then Inl IndexError else Inr (last xs))"

text \<open>\<^verbatim>\<open>sep.join(xs)\<close>.\<close>

fun join :: "string \<Rightarrow> string list \<Rightarrow> string" where
  "join sep [] = []"
| "join sep [x] = x"
| "join sep (x # y # ys) = x @ sep @ join sep (y # ys)"

subsection \<open>Escaping\<close>

text \<open>
  \<^verbatim>\<open>LatexGenerator.ESCAPE_PATTERNS\<close>. Its keys are joined with \<^verbatim>\<open>|\<close> into a regular
  expression; every key is a non-empty literal, so the expression matches, at a position,
  the first key that is a prefix of the remaining input. \<open>regex_sub\<close> is
  \<^verbatim>\<open>re.sub\<close> with a replacement function for such an expression: it copies the input,
  replacing each leftmost match by what the function returns for the matched text.
\<close>

definition ESCAPE_PATTERNS :: "(string \<times> string) list" where
  "ESCAPE_PATTERNS = [(''_'', [BS, CHR ''_''])]"

fun first_match :: "string list \<Rightarrow> string \<Rightarrow> string option" where
  "first_match [] s = None"
| "first_match (k # ks) s = (if k \<noteq> [] \<and> prefix k s then Some k else first_match ks s)"

fun regex_sub :: "string list \<Rightarrow> (string \<Rightarrow> error + string) \<Rightarrow> string \<Rightarrow> error + string" where
  "regex_sub ks f [] = Inr []"
| "regex_sub ks f (c # cs) =
     (case first_match ks (c # cs) of
        None \<Rightarrow> (case regex_sub ks f cs of Inl e \<Rightarrow> Inl e | Inr out \<Rightarrow> Inr (c # out))
      | Some k \<Rightarrow>
          (case f k of
             Inl e \<Rightarrow> Inl e
           | Inr r \<Rightarrow>
               (case regex_sub ks f (drop (length k - 1) cs) of
                  Inl e \<Rightarrow> Inl e
                | Inr out \<Rightarrow> Inr (r @ out))))"

definition text_escape :: "string \<Rightarrow> error + string" where
  "text_escape string =
     regex_sub (map fst ESCAPE_PATTERNS)
       (\<lambda>g. case map_of ESCAPE_PATTERNS g of None \<Rightarrow> Inl KeyError | Some r \<Rightarrow> Inr r)
       string"

text \<open>
  \<^verbatim>\<open>Generator.get_text(soup, escape)\<close>. A Python string and a \<^verbatim>\<open>NavigableString\<close> are both
  instances of \<^verbatim>\<open>str\<close> and are both passed as \<open>Text\<close>; \<^verbatim>\<open>None\<close> has no attribute
  \<^verbatim>\<open>string\<close>. \<open>soup_string\<close> is the local \<^verbatim>\<open>string\<close> of the method: the node itself, its
  \<^verbatim>\<open>.string\<close> when that is not empty, its \<^verbatim>\<open>.get_text()\<close> otherwise.
\<close>

fun soup_string :: "node \<Rightarrow> string" where
  "soup_string (Text s) = s"
| "soup_string (Tag n a cs) =
     (case node_string (Tag n a cs) of
        None \<Rightarrow> all_text (Tag n a cs)
      | Some s \<Rightarrow> if s \<noteq> [] then s else all_text (Tag n a cs))"

fun get_text :: "node option \<Rightarrow> bool \<Rightarrow> error + string" where
  "get_text None escape = Inl AttributeError"
| "get_text (Some soup) escape =
     (let string = soup_string soup
      in if escape then text_escape string else Inr string)"

subsection \<open>The reference table and the node translator\<close>

text \<open>
  The table is a Python dictionary from a key (an id or a name) to the descriptor
  \<^verbatim>\<open>{"name": ..., "label": ..., "ref": ...}\<close>. It is an association list with distinct
  keys in insertion order: \<open>AList.update\<close> is \<^verbatim>\<open>d[k] = v\<close>, \<open>map_of\<close> the lookup and
  \<open>length\<close> is \<^verbatim>\<open>len\<close>.
\<close>

record ref_data =
  d_name :: string
  d_label :: string
  d_ref :: string

type_synonym ref_dict = "(string \<times> ref_data) list"

lemma ebind_cong [fundef_cong]:
  "x = y \<Longrightarrow> (\<And>v. y = Inr v \<Longrightarrow> f v = g v) \<Longrightarrow> ebind x f = ebind y g"
  by (auto simp: ebind_def split: sum.splits)

definition ref_format :: "string \<Rightarrow> ref_dict \<Rightarrow> error + string" where
  "ref_format refid ref_dict =
     (case map_of ref_dict refid of
        None \<Rightarrow> Inl KeyError
      | Some ref \<Rightarrow> Inr ([BS] @ ''apifunc{'' @ d_name ref @ ''}{'' @ d_label ref @ ''}''))"

definition ref_to_format :: "node \<Rightarrow> ref_dict \<Rightarrow> error + string" where
  "ref_to_format para ref_dict =
     (if length ref_dict > 0
      then ebind (get_attr (Some para) ''refid'') (\<lambda>refid. ref_format refid ref_dict)
      else Inr [])"

definition nref_to_format :: "node \<Rightarrow> ref_dict \<Rightarrow> error + string" where
  "nref_to_format para ref_dict =
     (if length ref_dict > 0
      then ebind (get_attr (Some para) ''name'') (\<lambda>name. ref_format name ref_dict)
      else Inr [])"

lemma descendants_size: "d \<in> set (descendants nd) \<Longrightarrow> size d < size nd"
proof (induction nd arbitrary: d rule: descendants.induct)
  case (1 s)
  then show ?case by simp
next
  case (2 n a cs)
  from "2.prems" obtain c where c: "c \<in> set cs" and d: "d = c \<or> d \<in> set (descendants c)"
    by auto
  have "size c < size (Tag n a cs)"
    using size_list_estimation' [OF c order_refl, of size] by simp
  moreover have "size d \<le> size c"
    using d "2.IH" [OF c] by (auto simp: less_imp_le)
  ultimately show ?case by simp
qed

lemma find_tag_size: "find_tag t nd = Some d \<Longrightarrow> size d < size nd"
proof -
  assume "find_tag t nd = Some d"
  then have "d \<in> set (find_all t nd)"
    by (auto simp: find_tag_def split: list.splits)
  then show ?thesis
    by (auto simp: find_all_def intro: descendants_size)
qed

text \<open>The keys of the table that \<^verbatim>\<open>LatexGenerator.get_parse_table\<close> returns.\<close>

definition parse_table_keys :: "string list" where
  "parse_table_keys =
     [''para'', ''computeroutput'', ''texttt'', ''ref'', ''nameref'', ''shortref'', ''obj'',
      ''errorenumdesc'', ''orderedlist'', ''listitem'', ''itemizedlist'', ''autoref'']"

text \<open>
  \<^verbatim>\<open>parse_para\<close>, with the entry of the table for each key written out, and
  \<^verbatim>\<open>parse_contents\<close>, the loop over \<^verbatim>\<open>para.contents\<close> of \<^verbatim>\<open>parse_recurse\<close> and
  \<^verbatim>\<open>parse_list\<close>. A list item renders its first \<^verbatim>\<open>para\<close> descendant.
\<close>

function (sequential) parse_para :: "node \<Rightarrow> ref_dict \<Rightarrow> error + string"
  and parse_contents :: "node list \<Rightarrow> ref_dict \<Rightarrow> error + string"
where
  "parse_para (Text s) ref_dict = get_text (Some (Text s)) True"
| "parse_para (Tag n a cs) ref_dict =
     (if n = ''para'' then parse_contents cs ref_dict
      else if n = ''computeroutput'' then
        ebind (get_text (Some (Tag n a cs)) True) (\<lambda>t. Inr ([BS] @ ''texttt{'' @ t @ ''}''))
      else if n = ''texttt'' then
        ebind (get_attr (Some (Tag n a cs)) ''text'') (\<lambda>v.
        ebind (get_text (Some (Text v)) True) (\<lambda>t. Inr ([BS] @ ''texttt{'' @ t @ ''}'')))
      else if n = ''ref'' then ref_to_format (Tag n a cs) ref_dict
      else if n = ''nameref'' then nref_to_format (Tag n a cs) ref_dict
      else if n = ''shortref'' then
        ebind (get_attr (Some (Tag n a cs)) ''sec'') (\<lambda>v. Inr ([BS] @ ''ref{sec:'' @ v @ ''}''))
      else if n = ''obj'' then
        ebind (get_attr (Some (Tag n a cs)) ''name'') (\<lambda>v. Inr ([BS] @ ''obj{'' @ v @ ''}''))
      else if n = ''errorenumdesc'' then Inr ([BS] @ ''errorenumdesc'')
      else if n = ''orderedlist'' then
        ebind (parse_contents cs ref_dict) (\<lambda>body.
          Inr ([BS] @ ''begin{enumerate}\<newline>'' @ body @ [BS] @ ''end{enumerate}\<newline>''))
      else if n = ''listitem'' then
        (case find_tag ''para'' (Tag n a cs) of
           None \<Rightarrow> Inl AttributeError
         | Some p \<Rightarrow> ebind (parse_para p ref_dict) (\<lambda>t. Inr ([BS] @ ''item '' @ t @ ''\<newline>'')))
      else if n = ''itemizedlist'' then
        ebind (parse_contents cs ref_dict) (\<lambda>body.
          Inr ([BS] @ ''begin{itemize}\<newline>'' @ body @ [BS] @ ''end{itemize}\<newline>''))
      else if n = ''autoref'' then
        ebind (get_attr (Some (Tag n a cs)) ''label'') (\<lambda>v. Inr ([BS] @ ''autoref{'' @ v @ ''}''))
      else Inr [])"
| "parse_contents [] ref_dict = Inr []"
| "parse_contents (item # items) ref_dict =
     ebind (parse_para item ref_dict) (\<lambda>s.
     ebind (parse_contents items ref_dict) (\<lambda>rest. Inr (s @ rest)))"
  by pat_completeness auto
termination
proof (relation "measure (\<lambda>x. case x of Inl (nd, r) \<Rightarrow> 2 * size nd
                                         | Inr (nds, r) \<Rightarrow> 2 * size_list size nds + 1)")
  show "wf (measure (\<lambda>x. case x of Inl (nd, r) \<Rightarrow> 2 * size nd
                                    | Inr (nds, r) \<Rightarrow> 2 * size_list size nds + 1))"
    by simp
qed (auto dest: find_tag_size)

text \<open>\<^verbatim>\<open>parse_para\<close> on what \<^verbatim>\<open>find\<close> returned: \<^verbatim>\<open>None\<close> has no attribute \<^verbatim>\<open>name\<close>.\<close>

fun parse_para_opt :: "node option \<Rightarrow> ref_dict \<Rightarrow> error + string" where
  "parse_para_opt None ref_dict = Inl AttributeError"
| "parse_para_opt (Some nd) ref_dict = parse_para nd ref_dict"

subsection \<open>The reference resolver\<close>

text \<open>\<^verbatim>\<open>str(x)\<close> of an optional string: \<^verbatim>\<open>str(None)\<close> is the text \<^verbatim>\<open>None\<close>.\<close>

fun py_str :: "string option \<Rightarrow> string" where
  "py_str None = ''None''"
| "py_str (Some s) = s"

text \<open>The body of the loop of \<^verbatim>\<open>build_ref_dict\<close> up to the two stores (\<open>member_ref\<close>: the id,
  the raw name and the descriptor of a member), the loop and the function.\<close>

definition member_ref :: "node \<Rightarrow> error + (string \<times> string \<times> ref_data)" where
  "member_ref member =
     (case find_tag ''name'' member of
        None \<Rightarrow> Inl AttributeError
      | Some nm \<Rightarrow>
          (let name = py_str (node_string nm) in
           ebind (get_attr (find_tag ''manual'' member) ''label'') (\<lambda>label.
           ebind (get_attr (Some member) ''id'') (\<lambda>ref_id.
           ebind (text_escape name) (\<lambda>escaped.
             Inr (ref_id, name, \<lparr>d_name = escaped, d_label = label, d_ref = ref_id\<rparr>))))))"

fun ref_dict_loop :: "node list \<Rightarrow> ref_dict \<Rightarrow> error + ref_dict" where
  "ref_dict_loop [] ret = Inr ret"
| "ref_dict_loop (member # members) ret =
     ebind (member_ref member) (\<lambda>(ref_id, name, data).
       ref_dict_loop members (AList.update name data (AList.update ref_id data ret)))"

definition build_ref_dict :: "node \<Rightarrow> error + ref_dict" where
  "build_ref_dict soup = ref_dict_loop (find_all ''memberdef'' soup) []"

subsection \<open>The signature and parameter extractor\<close>

definition todo_if_empty :: "string \<Rightarrow> string" where
  "todo_if_empty s = (if s \<noteq> [] then s else [BS] @ ''todo'')"

definition default_return_doc :: "string \<Rightarrow> string" where
  "default_return_doc ret_type = (if ret_type = ''void'' then [BS] @ ''noret'' else [])"

definition generate_empty_param_string :: string where
  "generate_empty_param_string = [BS] @ ''param{void}{}{}''"

text \<open>The value of \<^verbatim>\<open>params[name]\<close>: the dictionary with the key \<^verbatim>\<open>type\<close> and, once a
  description is attached, the key \<^verbatim>\<open>desc\<close>.\<close>

record param_info =
  p_type :: string
  p_desc :: "string option"

type_synonym params = "(string \<times> param_info) list"

definition generate_param_string :: "param_info \<Rightarrow> string \<Rightarrow> error + string" where
  "generate_param_string info param_name =
     ebind (get_text (Some (Text (p_type info))) True) (\<lambda>t.
     ebind (get_text (Some (Text param_name)) True) (\<lambda>n.
       Inr ([BS] @ ''param{'' @ t @ ''}{'' @ n @ ''}{''
              @ todo_if_empty (strip (case p_desc info of None \<Rightarrow> [] | Some d \<Rightarrow> d))
              @ ''}\<newline>'')))"

text \<open>The loop over the declared names, each taking the next type from the iterator.\<close>

fun names_loop :: "node list \<Rightarrow> node list \<Rightarrow> params \<Rightarrow> string list
    \<Rightarrow> error + (params \<times> string list)" where
  "names_loop [] types_iter params param_order = Inr (params, param_order)"
| "names_loop (n # names) [] params param_order = Inl StopIteration"
| "names_loop (n # names) (t # types_iter) params param_order =
     (let param_type = all_text t in
      if param_type = ''void'' then names_loop names types_iter params param_order
      else names_loop names types_iter
             (AList.update (all_text n) \<lparr>p_type = param_type, p_desc = None\<rparr> params)
             (param_order @ [all_text n]))"

text \<open>The loop over the documented parameter items, attaching each description;
  \<open>item_desc\<close> is the value of \<^verbatim>\<open>param_desc\<close>, the rendering of the first paragraph of the
  item's description.\<close>

definition item_desc :: "node \<Rightarrow> ref_dict \<Rightarrow> error + string" where
  "item_desc param_item ref_dict =
     (case find_tag ''parameterdescription'' param_item of
        None \<Rightarrow> Inl AttributeError
      | Some param_desc_node \<Rightarrow> parse_para_opt (find_tag ''para'' param_desc_node) ref_dict)"

fun items_loop :: "node list \<Rightarrow> params \<Rightarrow> ref_dict \<Rightarrow> error + params" where
  "items_loop [] params ref_dict = Inr params"
| "items_loop (param_item # param_items) params ref_dict =
     ebind (get_text (find_tag ''parametername'' param_item) False) (\<lambda>param_name.
     ebind (item_desc param_item ref_dict) (\<lambda>param_desc.
       (case map_of params param_name of
          None \<Rightarrow> Inl KeyError
        | Some info \<Rightarrow>
            items_loop param_items
              (AList.update param_name (info\<lparr>p_desc := Some param_desc\<rparr>) params) ref_dict)))"

text \<open>The loop that emits one entry for each name of \<^verbatim>\<open>param_order\<close>.\<close>

fun params_str_loop :: "string list \<Rightarrow> params \<Rightarrow> error + string" where
  "params_str_loop [] params = Inr []"
| "params_str_loop (param_name # rest) params =
     (case map_of params param_name of
        None \<Rightarrow> Inl KeyError
      | Some info \<Rightarrow>
          ebind (generate_param_string info param_name) (\<lambda>s.
          ebind (params_str_loop rest params) (\<lambda>r. Inr (s @ r))))"

text \<open>The loop over the top-level paragraphs of the detailed description.\<close>

fun details_loop :: "node list \<Rightarrow> ref_dict \<Rightarrow> error + string" where
  "details_loop [] ref_dict = Inr []"
| "details_loop (n # ns) ref_dict =
     (case find_tag ''parameterlist'' n of
        None \<Rightarrow>
          ebind (parse_para n ref_dict) (\<lambda>s.
          ebind (details_loop ns ref_dict) (\<lambda>r. Inr (s @ ''\<newline>\<newline>'' @ r)))
      | Some pl \<Rightarrow> details_loop ns ref_dict)"

text \<open>The loop over the \<^verbatim>\<open>simplesect\<close> nodes, which stops at the first of kind \<^verbatim>\<open>return\<close>.\<close>

fun simplesect_loop :: "node list \<Rightarrow> string \<Rightarrow> ref_dict \<Rightarrow> error + string" where
  "simplesect_loop [] ret ref_dict = Inr ret"
| "simplesect_loop (n # ns) ret ref_dict =
     ebind (get_attr (Some n) ''kind'') (\<lambda>kind.
       if kind = ''return'' then parse_para_opt (find_tag ''para'' n) ref_dict
       else simplesect_loop ns ret ref_dict)"

text \<open>
  \<^verbatim>\<open>parse_detailed_desc\<close> runs three blocks in turn: the parameters (from the names, the
  types after the first and the documented parameter items to \<^verbatim>\<open>params_str\<close>), the details
  and the return documentation. Each block is a function here; \<open>parse_detailed_desc\<close>
  chains them in the order of the source, so the first exception raised is the result.
\<close>

definition parse_params :: "node \<Rightarrow> node list \<Rightarrow> ref_dict \<Rightarrow> error + string" where
  "parse_params parent types_iter ref_dict =
     ebind (names_loop (find_all ''declname'' parent) types_iter [] []) (\<lambda>(params0, param_order).
     ebind (items_loop (find_all ''parameteritem'' parent) params0 ref_dict) (\<lambda>params.
       if length params = 0 then Inr generate_empty_param_string
       else params_str_loop param_order params))"

definition parse_details :: "node \<Rightarrow> ref_dict \<Rightarrow> error + string" where
  "parse_details parent ref_dict =
     (case find_tag ''detaileddescription'' parent of
        None \<Rightarrow> Inl AttributeError
      | Some dd \<Rightarrow> details_loop (find_all_children ''para'' dd) ref_dict)"

definition parse_return :: "node \<Rightarrow> node \<Rightarrow> ref_dict \<Rightarrow> error + string" where
  "parse_return parent ret_type ref_dict =
     ebind (get_text (Some ret_type) False) (\<lambda>ret_str.
     ebind (py_last (split ret_str)) (\<lambda>last_component.
       simplesect_loop (find_all ''simplesect'' parent)
         (default_return_doc last_component) ref_dict))"

definition parse_detailed_desc :: "node \<Rightarrow> ref_dict \<Rightarrow> error + (string \<times> string \<times> string)" where
  "parse_detailed_desc parent ref_dict =
     (case find_all ''type'' parent of
        [] \<Rightarrow> Inl StopIteration
      | ret_type # types_iter \<Rightarrow>
          ebind (parse_params parent types_iter ref_dict) (\<lambda>params_str.
          ebind (parse_details parent ref_dict) (\<lambda>details.
          ebind (parse_return parent ret_type ref_dict) (\<lambda>ret.
            Inr (todo_if_empty (strip details), params_str, todo_if_empty (strip ret))))))"

definition parse_prototype :: "node \<Rightarrow> error + string" where
  "parse_prototype parent =
     ebind (get_attr (Some parent) ''inline'') (\<lambda>inline_attr.
     ebind (get_attr (Some parent) ''static'') (\<lambda>static_attr.
     ebind (get_text (find_tag ''type'' parent) True) (\<lambda>ret_type.
     ebind (get_text (find_tag ''name'' parent) True) (\<lambda>name.
       (let inline = (inline_attr = ''yes'');
            static = (static_attr = ''yes'');
            output = ret_type @ '' '' @ name;
            output = (if inline then ''inline '' @ output else output);
            output = (if static then ''static '' @ output else output)
        in Inr output)))))"

subsection \<open>The document assembler\<close>

fun emap :: "('a \<Rightarrow> error + 'b) \<Rightarrow> 'a list \<Rightarrow> error + 'b list" where
  "emap f [] = Inr []"
| "emap f (x # xs) = ebind (f x) (\<lambda>y. ebind (emap f xs) (\<lambda>ys. Inr (y # ys)))"

text \<open>\<^verbatim>\<open>parse_brief\<close> calls \<^verbatim>\<open>parse_para\<close> with its default table, which is empty.\<close>

definition parse_brief :: "node \<Rightarrow> error + string" where
  "parse_brief parent =
     (case find_tag ''briefdescription'' parent of
        None \<Rightarrow> Inl AttributeError
      | Some b \<Rightarrow>
          ebind (emap (\<lambda>n. parse_para n []) (find_all ''para'' b)) (\<lambda>paras.
            Inr (join ''\<newline>\<newline>'' paras)))"

definition generate_api_doc :: "string \<Rightarrow> node \<Rightarrow> string \<Rightarrow> string \<Rightarrow> string \<Rightarrow> error + string" where
  "generate_api_doc level member params ret details =
     (let manual_node = find_tag ''manual'' member in
      ebind (get_attr manual_node ''label'') (\<lambda>label.
      ebind (get_attr manual_node ''name'') (\<lambda>raw_name.
      ebind (text_escape raw_name) (\<lambda>name.
      ebind (parse_brief member) (\<lambda>brief.
      ebind (parse_prototype member) (\<lambda>prototype.
        Inr (''\<newline>'' @ [BS] @ ''apidoc\<newline>''
             @ ''[{'' @ level @ ''}]\<newline>''
             @ ''{'' @ label @ ''}\<newline>''
             @ ''{'' @ name @ ''}\<newline>''
             @ ''{'' @ todo_if_empty brief @ ''}\<newline>''
             @ ''{'' @ prototype @ ''}\<newline>''
             @ ''{'' @ params @ ''}\<newline>''
             @ ''{'' @ ret @ ''}\<newline>''
             @ ''{'' @ details @ ''}\<newline>''
             @ ''        '')))))))"

text \<open>The two loops of \<^verbatim>\<open>generate_general_syscall_doc\<close>: over the top-level detailed
  descriptions (rendered with the default, empty table) and over the members.\<close>

fun top_loop :: "node list \<Rightarrow> error + string" where
  "top_loop [] = Inr []"
| "top_loop (ddesc # ddescs) =
     (case find_tag ''para'' ddesc of
        None \<Rightarrow> top_loop ddescs
      | Some p \<Rightarrow>
          ebind (parse_para p []) (\<lambda>s.
          ebind (top_loop ddescs) (\<lambda>r. Inr (s @ r))))"

fun members_loop :: "string \<Rightarrow> node list \<Rightarrow> ref_dict \<Rightarrow> error + string" where
  "members_loop level [] ref_dict = Inr []"
| "members_loop level (member # members) ref_dict =
     ebind (parse_detailed_desc member ref_dict) (\<lambda>(details, params, ret).
     ebind (generate_api_doc level member params ret details) (\<lambda>s.
     ebind (members_loop level members ref_dict) (\<lambda>r. Inr (s @ r))))"

text \<open>\<^verbatim>\<open>generate_general_syscall_doc\<close>, from the parsed soup on.\<close>

definition generate_general_syscall_doc :: "node \<Rightarrow> string \<Rightarrow> error + string" where
  "generate_general_syscall_doc soup level =
     ebind (build_ref_dict soup) (\<lambda>ref_dict.
       (let elements = find_all ''memberdef'' soup in
        case find_tag ''compounddef'' soup of
          None \<Rightarrow> Inl AttributeError
        | Some summary \<Rightarrow>
            ebind (top_loop (find_all_children ''detaileddescription'' summary)) (\<lambda>output.
              if length elements = 0 then Inr ''No methods.''
              else ebind (members_loop level elements ref_dict) (\<lambda>rest.
                     Inr (output @ rest)))))"

section \<open>Properties\<close>

subsection \<open>Sequencing and escaping\<close>

lemma ebind_Inr [simp]: "ebind (Inr v) f = f v"
  by (simp add: ebind_def)

lemma ebind_Inl [simp]: "ebind (Inl e) f = Inl e"
  by (simp add: ebind_def)

lemma ebind_eq_Inr: "ebind x f = Inr y \<longleftrightarrow> (\<exists>v. x = Inr v \<and> f v = Inr y)"
  by (cases x) simp_all

text \<open>What the specification says of the escaper: each underscore becomes a backslash and
  an underscore, every other character stays.\<close>

definition spec_escape :: "string \<Rightarrow> string" where
  "spec_escape s = concat (map (\<lambda>c. if c = CHR ''_'' then [BS, CHR ''_''] else [c]) s)"

lemma first_match_latex:
  "first_match (map fst ESCAPE_PATTERNS) (c # cs) = (if c = CHR ''_'' then Some ''_'' else None)"
  by (simp add: ESCAPE_PATTERNS_def)

lemma text_escape_Nil: "text_escape [] = Inr []"
  by (simp add: text_escape_def)

lemma text_escape_Cons:
  "text_escape (c # cs) =
     (case text_escape cs of
        Inl e \<Rightarrow> Inl e
      | Inr out \<Rightarrow> Inr ((if c = CHR ''_'' then [BS, CHR ''_''] else [c]) @ out))"
  unfolding text_escape_def
  by (simp add: first_match_latex split: sum.splits) (simp add: ESCAPE_PATTERNS_def)

lemma text_escape_eq: "text_escape s = Inr (spec_escape s)"
  by (induction s) (simp_all add: text_escape_Nil text_escape_Cons spec_escape_def)

lemma spec_escape_id: "CHR ''_'' \<notin> set s \<Longrightarrow> spec_escape s = s"
  by (induction s) (auto simp: spec_escape_def)

text \<open>
  C7. For every input string, the empty one included, \<open>text_escape\<close> returns a string and
  raises nothing; the result is the input with every underscore replaced by a backslash
  followed by an underscore and every other character unchanged; on a string without an
  underscore it is the identity.
\<close>

theorem text_escape_total_and_exact:
  "text_escape s = Inr (concat (map (\<lambda>c. if c = CHR ''_'' then [BS, CHR ''_''] else [c]) s))
   \<and> (CHR ''_'' \<notin> set s \<longrightarrow> text_escape s = Inr s)
   \<and> text_escape [] = Inr []"
  using text_escape_eq [of s] spec_escape_id [of s]
  by (simp add: spec_escape_def text_escape_Nil)

theorem text_escape_total_and_exact_witness:
  "CHR ''_'' \<notin> set ''seL4 Yield'' \<and> text_escape ''seL4 Yield'' = Inr ''seL4 Yield''
   \<and> text_escape ''a_b'' = Inr [CHR ''a'', BS, CHR ''_'', CHR ''b'']"
  using text_escape_total_and_exact [of "''seL4 Yield''"] text_escape_total_and_exact [of "''a_b''"]
  by simp

lemma get_text_Some: "get_text (Some nd) esc = Inr (if esc then spec_escape (soup_string nd) else soup_string nd)"
  by (simp add: text_escape_eq)

subsection \<open>The node translator degrades gracefully\<close>

text \<open>
  C5. A tag whose name is not a key of the parse table renders as the empty string, with
  no error; and with an empty reference table a reference by id (\<^verbatim>\<open>ref\<close>) or by name
  (\<^verbatim>\<open>nameref\<close>) renders as the empty string too, whatever its attributes and contents.
\<close>

theorem parse_para_graceful:
  "(n \<notin> set parse_table_keys \<longrightarrow> parse_para (Tag n a cs) ref_dict = Inr [])
   \<and> parse_para (Tag ''ref'' a cs) [] = Inr []
   \<and> parse_para (Tag ''nameref'' a cs) [] = Inr []"
  by (simp add: parse_table_keys_def ref_to_format_def nref_to_format_def)

theorem parse_para_graceful_witness:
  "''simplesect'' \<notin> set parse_table_keys
   \<and> parse_para (Tag ''simplesect'' [(''kind'', ''note'')] [Text ''x'']) [] = Inr []
   \<and> parse_para (Tag ''ref'' [(''refid'', ''group_1a'')] [Text ''seL4_Yield'']) [] = Inr []"
  using parse_para_graceful [of "''simplesect''" "[(''kind'', ''note'')]" "[Text ''x'']" "[]"]
    parse_para_graceful [of "''simplesect''" "[(''refid'', ''group_1a'')]" "[Text ''seL4_Yield'']" "[]"]
  by (simp add: parse_table_keys_def)

subsection \<open>The prototype\<close>

text \<open>The prototype as the specification words it: the \<^verbatim>\<open>inline\<close> token before the
  \<^verbatim>\<open>static\<close> token.\<close>

definition spec_prototype :: "bool \<Rightarrow> bool \<Rightarrow> string \<Rightarrow> string \<Rightarrow> string" where
  "spec_prototype inline static ret_type name =
     (if inline then ''inline '' else []) @ (if static then ''static '' else [])
       @ ret_type @ '' '' @ name"

definition member_both_flags :: node where
  "member_both_flags =
     Tag ''memberdef'' [(''id'', ''group_1a''), (''inline'', ''yes''), (''static'', ''yes'')]
       [Tag ''type'' [] [Text ''void''], Tag ''name'' [] [Text ''f'']]"

text \<open>
  C1 as stated fails: on a member with both flags set to \<^verbatim>\<open>yes\<close> the code returns
  \<^verbatim>\<open>static inline void f\<close>, not the text with \<^verbatim>\<open>inline\<close> before \<^verbatim>\<open>static\<close>.
\<close>

theorem parse_prototype_inline_first_counterexample:
  "get_attr (Some member_both_flags) ''inline'' = Inr ''yes''
   \<and> get_attr (Some member_both_flags) ''static'' = Inr ''yes''
   \<and> parse_prototype member_both_flags = Inr ''static inline void f''
   \<and> parse_prototype member_both_flags \<noteq> Inr (spec_prototype True True ''void'' ''f'')"
  by (simp add: member_both_flags_def parse_prototype_def spec_prototype_def find_tag_def
        find_all_def text_escape_eq spec_escape_def)

text \<open>
  C1, amended. For every member that has the attributes \<^verbatim>\<open>inline\<close> and \<^verbatim>\<open>static\<close>, a
  \<^verbatim>\<open>type\<close> and a \<^verbatim>\<open>name\<close>, \<open>parse_prototype\<close> returns the escaped return-type text, a
  space and the escaped name text, prefixed by \<^verbatim>\<open>inline\<close> exactly when the inline flag is
  \<^verbatim>\<open>yes\<close> and, in front of that, by \<^verbatim>\<open>static\<close> exactly when the static flag is \<^verbatim>\<open>yes\<close>:
  with both flags set the output starts \<^verbatim>\<open>static inline\<close>.
\<close>

theorem parse_prototype_static_first:
  assumes "get_attr (Some parent) ''inline'' = Inr i"
    and "get_attr (Some parent) ''static'' = Inr s"
    and "find_tag ''type'' parent = Some t"
    and "find_tag ''name'' parent = Some nm"
  shows "\<exists>ret_type name.
           get_text (Some t) True = Inr ret_type \<and> get_text (Some nm) True = Inr name
           \<and> parse_prototype parent =
               Inr ((if s = ''yes'' then ''static '' else [])
                    @ (if i = ''yes'' then ''inline '' else [])
                    @ ret_type @ '' '' @ name)"
  using assms by (simp add: parse_prototype_def get_text_Some del: get_text.simps)

theorem parse_prototype_static_first_witness:
  "get_attr (Some member_both_flags) ''inline'' = Inr ''yes''
   \<and> get_attr (Some member_both_flags) ''static'' = Inr ''yes''
   \<and> find_tag ''type'' member_both_flags = Some (Tag ''type'' [] [Text ''void''])
   \<and> find_tag ''name'' member_both_flags = Some (Tag ''name'' [] [Text ''f''])
   \<and> parse_prototype member_both_flags = Inr ''static inline void f''"
proof -
  have a: "get_attr (Some member_both_flags) ''inline'' = Inr ''yes''"
    by (simp add: member_both_flags_def)
  have b: "get_attr (Some member_both_flags) ''static'' = Inr ''yes''"
    by (simp add: member_both_flags_def)
  have c: "find_tag ''type'' member_both_flags = Some (Tag ''type'' [] [Text ''void''])"
    by (simp add: member_both_flags_def find_tag_def find_all_def)
  have d: "find_tag ''name'' member_both_flags = Some (Tag ''name'' [] [Text ''f''])"
    by (simp add: member_both_flags_def find_tag_def find_all_def)
  show ?thesis
    using a b c d parse_prototype_static_first [OF a b c d]
    by (simp add: text_escape_eq spec_escape_def)
qed

subsection \<open>The document assembler without members\<close>

text \<open>Three documents without a member: the index file of the extraction tool, which has
  no \<^verbatim>\<open>compounddef\<close>; one whose top-level paragraph holds a \<^verbatim>\<open>shortref\<close> without its
  attribute; and one with a plain top-level paragraph.\<close>


definition index_soup :: node where
  "index_soup =
     Tag ''[document]'' []
       [Tag ''doxygenindex'' []
          [Tag ''compound'' [(''kind'', ''file'')] [Tag ''name'' [] [Text ''syscalls.h'']]]]"

definition bad_intro_soup :: node where
  "bad_intro_soup =
     Tag ''[document]'' []
       [Tag ''compounddef'' []
          [Tag ''detaileddescription'' [] [Tag ''para'' [] [Tag ''shortref'' [] []]]]]"

definition intro_soup :: node where
  "intro_soup =
     Tag ''[document]'' []
       [Tag ''compounddef'' []
          [Tag ''detaileddescription'' [] [Tag ''para'' [] [Text ''General system calls'']]]]"

text \<open>
  C8 as stated fails: a document without members and without a \<^verbatim>\<open>compounddef\<close> raises
  \<^verbatim>\<open>AttributeError\<close> before the test on the number of members, and a top-level paragraph
  that does not render raises its error there too.
\<close>

theorem no_methods_counterexample:
  "find_all ''memberdef'' index_soup = []
   \<and> generate_general_syscall_doc index_soup ''subsection'' = Inl AttributeError
   \<and> find_all ''memberdef'' bad_intro_soup = []
   \<and> generate_general_syscall_doc bad_intro_soup ''subsection'' = Inl KeyError"
  by (simp add: index_soup_def bad_intro_soup_def generate_general_syscall_doc_def
        build_ref_dict_def find_all_def find_tag_def find_all_children_def)

text \<open>
  C8, amended. For every document with zero members that has a \<^verbatim>\<open>compounddef\<close> whose
  top-level description paragraphs render without error, \<open>generate_general_syscall_doc\<close>
  returns exactly \<^verbatim>\<open>No methods.\<close>, whatever those paragraphs rendered to.
\<close>

theorem no_methods_sentinel:
  assumes "find_all ''memberdef'' soup = []"
    and "find_tag ''compounddef'' soup = Some summary"
    and "top_loop (find_all_children ''detaileddescription'' summary) = Inr output"
  shows "generate_general_syscall_doc soup level = Inr ''No methods.''"
  using assms by (simp add: generate_general_syscall_doc_def build_ref_dict_def)

theorem no_methods_sentinel_witness:
  "find_all ''memberdef'' intro_soup = []
   \<and> top_loop [Tag ''detaileddescription'' [] [Tag ''para'' [] [Text ''General system calls'']]]
       = Inr ''General system calls''
   \<and> generate_general_syscall_doc intro_soup ''subsection'' = Inr ''No methods.''"
proof -
  let ?dd = "Tag ''detaileddescription'' [] [Tag ''para'' [] [Text ''General system calls'']]"
  have a: "find_all ''memberdef'' intro_soup = []"
    by (simp add: intro_soup_def find_all_def)
  have b: "find_tag ''compounddef'' intro_soup = Some (Tag ''compounddef'' [] [?dd])"
    by (simp add: intro_soup_def find_all_def find_tag_def)
  have c: "top_loop (find_all_children ''detaileddescription'' (Tag ''compounddef'' [] [?dd]))
             = Inr ''General system calls''"
    by (simp add: find_all_children_def find_all_def find_tag_def text_escape_eq spec_escape_def)
  show ?thesis
    using a c no_methods_sentinel [OF a b c, of "''subsection''"]
    by (simp add: find_all_children_def)
qed

subsection \<open>The return type is indexed without a guard\<close>


lemma split_acc_Nil_iff: "split_acc cur s = [] \<longleftrightarrow> cur = [] \<and> (\<forall>c\<in>set s. is_space c)"
  by (induction s arbitrary: cur) auto

lemma split_Nil_iff: "split s = [] \<longleftrightarrow> (\<forall>c\<in>set s. is_space c)"
  by (simp add: split_def split_acc_Nil_iff)

lemma py_last_IndexError_iff: "py_last xs = Inl IndexError \<longleftrightarrow> xs = []"
  by (simp add: py_last_def)

lemma parse_detailed_desc_Inr:
  assumes "parse_detailed_desc parent ref_dict = Inr (details, params_str, ret)"
  obtains ret_type types_iter d r where
    "find_all ''type'' parent = ret_type # types_iter"
    "parse_params parent types_iter ref_dict = Inr params_str"
    "parse_details parent ref_dict = Inr d"
    "parse_return parent ret_type ref_dict = Inr r"
    "details = todo_if_empty (strip d)"
    "ret = todo_if_empty (strip r)"
  using assms unfolding parse_detailed_desc_def
  by (auto simp: ebind_eq_Inr split: list.splits)

lemma parse_return_whitespace:
  assumes "\<forall>c\<in>set (soup_string ret_type). is_space c"
  shows "parse_return parent ret_type ref_dict = Inl IndexError"
  using assms by (simp add: parse_return_def py_last_def split_Nil_iff)

text \<open>
  C9. The last component of the return-type text is taken with \<^verbatim>\<open>split()[-1]\<close> and no
  guard: the indexing raises \<^verbatim>\<open>IndexError\<close> exactly when the text is empty or all
  whitespace (every character is one that \<^verbatim>\<open>str.isspace\<close> accepts). For every member with such a return type the return block fails with
  \<^verbatim>\<open>IndexError\<close>, so \<open>parse_detailed_desc\<close> never returns a result, and it fails with
  \<^verbatim>\<open>IndexError\<close> whenever the parameter and the details blocks before it have passed.
\<close>

theorem return_type_unguarded:
  assumes "find_all ''type'' parent = ret_type # types_iter"
  shows "(py_last (split (soup_string ret_type)) = Inl IndexError
            \<longleftrightarrow> (\<forall>c\<in>set (soup_string ret_type). is_space c))
       \<and> ((\<forall>c\<in>set (soup_string ret_type). is_space c) \<longrightarrow>
            parse_return parent ret_type ref_dict = Inl IndexError
            \<and> (\<exists>e. parse_detailed_desc parent ref_dict = Inl e)
            \<and> (\<forall>params_str details.
                  parse_params parent types_iter ref_dict = Inr params_str \<longrightarrow>
                  parse_details parent ref_dict = Inr details \<longrightarrow>
                  parse_detailed_desc parent ref_dict = Inl IndexError))"
proof (intro conjI impI allI)
  show "py_last (split (soup_string ret_type)) = Inl IndexError
          \<longleftrightarrow> (\<forall>c\<in>set (soup_string ret_type). is_space c)"
    by (simp add: py_last_IndexError_iff split_Nil_iff)
next
  assume ws: "\<forall>c\<in>set (soup_string ret_type). is_space c"
  then show r: "parse_return parent ret_type ref_dict = Inl IndexError"
    by (rule parse_return_whitespace)
  show "\<exists>e. parse_detailed_desc parent ref_dict = Inl e"
  proof (cases "parse_detailed_desc parent ref_dict")
    case (Inl e)
    then show ?thesis by blast
  next
    case (Inr res)
    obtain d p t where "res = (d, p, t)" by (cases res)
    with Inr have "parse_detailed_desc parent ref_dict = Inr (d, p, t)" by simp
    then show ?thesis
      using assms r by (elim parse_detailed_desc_Inr) simp
  qed
next
  fix params_str details
  assume "\<forall>c\<in>set (soup_string ret_type). is_space c"
    and "parse_params parent types_iter ref_dict = Inr params_str"
    and "parse_details parent ref_dict = Inr details"
  then show "parse_detailed_desc parent ref_dict = Inl IndexError"
    using assms by (simp add: parse_detailed_desc_def parse_return_whitespace)
qed

text \<open>Two members whose return type has no component: an empty \<^verbatim>\<open>type\<close> element, and
  one that holds a single no-break space.\<close>

definition member_empty_type :: node where
  "member_empty_type =
     Tag ''memberdef'' [(''id'', ''group_1b'')]
       [Tag ''type'' [] [], Tag ''name'' [] [Text ''f''], Tag ''detaileddescription'' [] []]"

definition member_nbsp_type :: node where
  "member_nbsp_type =
     Tag ''memberdef'' [(''id'', ''group_1g'')]
       [Tag ''type'' [] [Text [CHR 0xA0]], Tag ''name'' [] [Text ''f''],
        Tag ''detaileddescription'' [] []]"

theorem return_type_unguarded_witness:
  "find_all ''type'' member_empty_type = [Tag ''type'' [] []]
   \<and> soup_string (Tag ''type'' [] []) = []
   \<and> parse_params member_empty_type [] [] = Inr generate_empty_param_string
   \<and> parse_details member_empty_type [] = Inr []
   \<and> parse_detailed_desc member_empty_type [] = Inl IndexError
   \<and> find_all ''type'' member_nbsp_type = [Tag ''type'' [] [Text [CHR 0xA0]]]
   \<and> soup_string (Tag ''type'' [] [Text [CHR 0xA0]]) = [CHR 0xA0]
   \<and> is_space (CHR 0xA0)
   \<and> parse_detailed_desc member_nbsp_type [] = Inl IndexError"
proof -
  have a: "find_all ''type'' member_empty_type = [Tag ''type'' [] []]"
    by (simp add: member_empty_type_def find_all_def)
  have b: "\<forall>c\<in>set (soup_string (Tag ''type'' [] [])). is_space c"
    by simp
  have c: "parse_params member_empty_type [] [] = Inr generate_empty_param_string"
    by (simp add: member_empty_type_def parse_params_def find_all_def)
  have d: "parse_details member_empty_type [] = Inr []"
    by (simp add: member_empty_type_def parse_details_def find_all_def find_tag_def
          find_all_children_def)
  from return_type_unguarded [OF a, of "[]"] b c d
  have r: "parse_detailed_desc member_empty_type [] = Inl IndexError"
    by blast
  have a': "find_all ''type'' member_nbsp_type = [Tag ''type'' [] [Text [CHR 0xA0]]]"
    by (simp add: member_nbsp_type_def find_all_def)
  have s': "soup_string (Tag ''type'' [] [Text [CHR 0xA0]]) = [CHR 0xA0]"
    by simp
  have sp: "is_space (CHR 0xA0)"
    by (simp add: is_space_def)
  from s' sp have b': "\<forall>c\<in>set (soup_string (Tag ''type'' [] [Text [CHR 0xA0]])). is_space c"
    by simp
  have c': "parse_params member_nbsp_type [] [] = Inr generate_empty_param_string"
    by (simp add: member_nbsp_type_def parse_params_def find_all_def)
  have d': "parse_details member_nbsp_type [] = Inr []"
    by (simp add: member_nbsp_type_def parse_details_def find_all_def find_tag_def
          find_all_children_def)
  from return_type_unguarded [OF a', of "[]"] b' c' d'
  have r': "parse_detailed_desc member_nbsp_type [] = Inl IndexError"
    by blast
  from a c d r a' s' sp r' show ?thesis by simp
qed

subsection \<open>The return documentation\<close>


lemma simplesect_loop_no_return:
  assumes "\<forall>n\<in>set ns. get_attr (Some n) ''kind'' \<noteq> Inr ''return''"
    and "simplesect_loop ns d ref_dict = Inr r"
  shows "r = d"
  using assms by (induction ns) (auto simp: ebind_eq_Inr split: if_splits)

lemma simplesect_loop_first_return:
  assumes "\<forall>m\<in>set pre. get_attr (Some m) ''kind'' \<noteq> Inr ''return''"
    and "get_attr (Some n) ''kind'' = Inr ''return''"
  shows "simplesect_loop (pre @ n # post) d ref_dict
           = (case emap (\<lambda>m. get_attr (Some m) ''kind'') pre of
                Inl e \<Rightarrow> Inl e
              | Inr ks \<Rightarrow> parse_para_opt (find_tag ''para'' n) ref_dict)"
  using assms
proof (induction pre)
  case Nil
  then show ?case by simp
next
  case (Cons m pre)
  then show ?case
    by (cases "get_attr (Some m) ''kind''") (auto split: sum.splits)
qed

lemma strip_noret: "strip ([BS] @ ''noret'') = [BS] @ ''noret''"
  by (simp add: strip_def is_space_def)

lemma strip_Nil: "strip [] = []"
  by (simp add: strip_def)

text \<open>The content of a section as the specification words it: the rendering of
  everything the section contains.\<close>

definition spec_section_content :: "node \<Rightarrow> ref_dict \<Rightarrow> error + string" where
  "spec_section_content sect ref_dict = parse_contents (contents sect) ref_dict"

text \<open>
  C3, amended. Whenever \<open>parse_detailed_desc\<close> returns, the return type text has a last
  whitespace-delimited component; the default return documentation is the \<^verbatim>\<open>noret\<close> marker
  exactly when that component is \<^verbatim>\<open>void\<close> and is empty otherwise. With no section of kind
  \<^verbatim>\<open>return\<close> the result is the default after the placeholder substitution (the marker, or
  the to-do marker for the empty default). With such a section, the first one decides: the
  result is the rendering of the first paragraph of that section, stripped and passed
  through the placeholder substitution, so that an empty rendering becomes the to-do
  marker; the other paragraphs of the section and the sections after it play no part.
\<close>

theorem return_doc:
  assumes "parse_detailed_desc parent ref_dict = Inr (details, params_str, ret)"
  shows "\<exists>ret_type types_iter last_component.
           find_all ''type'' parent = ret_type # types_iter
         \<and> split (soup_string ret_type) \<noteq> []
         \<and> last_component = last (split (soup_string ret_type))
         \<and> default_return_doc last_component
             = (if last_component = ''void'' then [BS] @ ''noret'' else [])
         \<and> ((\<forall>n\<in>set (find_all ''simplesect'' parent). get_attr (Some n) ''kind'' \<noteq> Inr ''return'')
              \<longrightarrow> ret = todo_if_empty (strip (default_return_doc last_component))
                \<and> ret = (if last_component = ''void'' then [BS] @ ''noret'' else [BS] @ ''todo''))
         \<and> (\<forall>pre n post.
               find_all ''simplesect'' parent = pre @ n # post
               \<longrightarrow> (\<forall>m\<in>set pre. get_attr (Some m) ''kind'' \<noteq> Inr ''return'')
               \<longrightarrow> get_attr (Some n) ''kind'' = Inr ''return''
               \<longrightarrow> (\<exists>r. parse_para_opt (find_tag ''para'' n) ref_dict = Inr r
                        \<and> ret = todo_if_empty (strip r)
                        \<and> (strip r = [] \<longrightarrow> ret = [BS] @ ''todo'')))"
proof -
  from assms obtain ret_type types_iter d r where
    ty: "find_all ''type'' parent = ret_type # types_iter"
    and pr: "parse_return parent ret_type ref_dict = Inr r"
    and ret: "ret = todo_if_empty (strip r)"
    by (rule parse_detailed_desc_Inr)
  define tok where "tok = last (split (soup_string ret_type))"
  from pr have ne: "split (soup_string ret_type) \<noteq> []"
    and loop: "simplesect_loop (find_all ''simplesect'' parent) (default_return_doc tok) ref_dict = Inr r"
    by (auto simp: parse_return_def ebind_eq_Inr py_last_def tok_def split: if_splits)
  have dflt: "default_return_doc tok = (if tok = ''void'' then [BS] @ ''noret'' else [])"
    by (simp add: default_return_doc_def)
  have none: "ret = todo_if_empty (strip (default_return_doc tok))
              \<and> ret = (if tok = ''void'' then [BS] @ ''noret'' else [BS] @ ''todo'')"
    if "\<forall>n\<in>set (find_all ''simplesect'' parent). get_attr (Some n) ''kind'' \<noteq> Inr ''return''"
  proof -
    from simplesect_loop_no_return [OF that loop] have "r = default_return_doc tok" .
    with ret show ?thesis
      using strip_noret by (simp add: default_return_doc_def todo_if_empty_def strip_Nil)
  qed
  have first: "\<exists>r'. parse_para_opt (find_tag ''para'' n) ref_dict = Inr r'
                 \<and> ret = todo_if_empty (strip r') \<and> (strip r' = [] \<longrightarrow> ret = [BS] @ ''todo'')"
    if "find_all ''simplesect'' parent = pre @ n # post"
      and "\<forall>m\<in>set pre. get_attr (Some m) ''kind'' \<noteq> Inr ''return''"
      and "get_attr (Some n) ''kind'' = Inr ''return''"
    for pre n post
  proof -
    from loop that(1) simplesect_loop_first_return [OF that(2,3), of post "default_return_doc tok" ref_dict]
    have "parse_para_opt (find_tag ''para'' n) ref_dict = Inr r"
      by (auto split: sum.splits)
    with ret show ?thesis by (simp add: todo_if_empty_def)
  qed
  show ?thesis
    using ty ne dflt none first unfolding tok_def by blast
qed

text \<open>
  A return section with two paragraphs; a member with that section and a second return
  section after it; and a member returning \<^verbatim>\<open>void\<close> (followed by a no-break space) without
  a return section.
\<close>

definition return_sect :: "string \<Rightarrow> node" where
  "return_sect s = Tag ''simplesect'' [(''kind'', ''return'')] [Tag ''para'' [] [Text s]]"

definition long_return_sect :: node where
  "long_return_sect =
     Tag ''simplesect'' [(''kind'', ''return'')]
       [Tag ''para'' [] [Text ''first''], Tag ''para'' [] [Text ''more'']]"

definition member_two_returns :: node where
  "member_two_returns =
     Tag ''memberdef'' [(''id'', ''group_1c'')]
       [Tag ''type'' [] [Text ''static int''], Tag ''name'' [] [Text ''f''],
        Tag ''detaileddescription'' []
          [Tag ''para'' [] [long_return_sect, return_sect ''second'']]]"

definition member_void :: node where
  "member_void =
     Tag ''memberdef'' [(''id'', ''group_1d'')]
       [Tag ''type'' [] [Text (''static void'' @ [CHR 0xA0])], Tag ''name'' [] [Text ''g''],
        Tag ''detaileddescription'' [] []]"

lemma strip_first: "strip ''first'' = ''first''"
  by (simp add: strip_def is_space_def)

lemma split_static_int: "split ''static int'' = [''static'', ''int'']"
  by (simp add: split_def is_space_def)

lemma split_static_void_nbsp: "split (''static void'' @ [CHR 0xA0]) = [''static'', ''void'']"
  by (simp add: split_def is_space_def)

lemma strip_two_newlines: "strip ''\<newline>\<newline>'' = []"
  by (simp add: strip_def is_space_def)

lemma member_two_returns_result:
  "parse_detailed_desc member_two_returns []
     = Inr ([BS] @ ''todo'', [BS] @ ''param{void}{}{}'', ''first'')"
  by (simp add: member_two_returns_def return_sect_def long_return_sect_def
        parse_detailed_desc_def parse_params_def
        parse_details_def parse_return_def find_all_def find_tag_def find_all_children_def
        generate_empty_param_string_def split_static_int py_last_def default_return_doc_def
        text_escape_eq spec_escape_def todo_if_empty_def strip_first strip_two_newlines)

text \<open>
  C3 as stated fails: the content of the first return section is not what replaces the
  default. On a member whose first return section holds the paragraphs \<^verbatim>\<open>first\<close> and
  \<^verbatim>\<open>more\<close> the section's content renders as \<^verbatim>\<open>firstmore\<close>, and the code returns
  \<^verbatim>\<open>first\<close>: it renders the first paragraph of the section only.
\<close>

theorem return_doc_section_content_counterexample:
  "find_all ''simplesect'' member_two_returns = [long_return_sect, return_sect ''second'']
   \<and> get_attr (Some long_return_sect) ''kind'' = Inr ''return''
   \<and> spec_section_content long_return_sect [] = Inr ''firstmore''
   \<and> parse_detailed_desc member_two_returns []
       = Inr ([BS] @ ''todo'', [BS] @ ''param{void}{}{}'', ''first'')
   \<and> ''first'' \<noteq> todo_if_empty (strip ''firstmore'')"
  using member_two_returns_result
  by (simp add: member_two_returns_def return_sect_def long_return_sect_def find_all_def
        spec_section_content_def text_escape_eq spec_escape_def todo_if_empty_def
        strip_def is_space_def)

theorem return_doc_witness:
  "parse_detailed_desc member_two_returns [] = Inr ([BS] @ ''todo'', [BS] @ ''param{void}{}{}'', ''first'')
   \<and> find_all ''simplesect'' member_two_returns = [] @ long_return_sect # [return_sect ''second'']
   \<and> get_attr (Some long_return_sect) ''kind'' = Inr ''return''
   \<and> parse_para_opt (find_tag ''para'' long_return_sect) [] = Inr ''first''
   \<and> parse_detailed_desc member_void [] = Inr ([BS] @ ''todo'', [BS] @ ''param{void}{}{}'', [BS] @ ''noret'')
   \<and> find_all ''simplesect'' member_void = []
   \<and> last (split (''static void'' @ [CHR 0xA0])) = ''void''
   \<and> ''first'' = todo_if_empty (strip ''first'')"
proof -
  note h1 = member_two_returns_result
  have s1: "find_all ''simplesect'' member_two_returns
              = [] @ long_return_sect # [return_sect ''second'']"
    by (simp add: member_two_returns_def return_sect_def long_return_sect_def find_all_def)
  have k1: "get_attr (Some long_return_sect) ''kind'' = Inr ''return''"
    by (simp add: long_return_sect_def)
  have p1: "parse_para_opt (find_tag ''para'' long_return_sect) [] = Inr ''first''"
    by (simp add: long_return_sect_def find_tag_def find_all_def text_escape_eq spec_escape_def)
  have h2: "parse_detailed_desc member_void []
              = Inr ([BS] @ ''todo'', [BS] @ ''param{void}{}{}'', [BS] @ ''noret'')"
    by (simp add: member_void_def parse_detailed_desc_def parse_params_def
          parse_details_def parse_return_def find_all_def find_tag_def find_all_children_def
          generate_empty_param_string_def split_static_void_nbsp [simplified] py_last_def
          default_return_doc_def todo_if_empty_def strip_noret [simplified] strip_Nil)
  have s2: "find_all ''simplesect'' member_void = []"
    by (simp add: member_void_def find_all_def)
  from return_doc [OF h1] have
    "\<forall>pre n post.
        find_all ''simplesect'' member_two_returns = pre @ n # post
        \<longrightarrow> (\<forall>m\<in>set pre. get_attr (Some m) ''kind'' \<noteq> Inr ''return'')
        \<longrightarrow> get_attr (Some n) ''kind'' = Inr ''return''
        \<longrightarrow> (\<exists>r. parse_para_opt (find_tag ''para'' n) [] = Inr r
                 \<and> ''first'' = todo_if_empty (strip r))"
    by blast
  from this [rule_format, OF s1 _ k1] p1
  have u1: "''first'' = todo_if_empty (strip ''first'')"
    by simp
  from return_doc [OF h2] s2
  have u2: "last (split (''static void'' @ [CHR 0xA0])) = ''void''"
    by (auto simp: member_void_def find_all_def split_static_void_nbsp [simplified])
  from h1 s1 k1 p1 h2 s2 u1 u2 show ?thesis by blast
qed

subsection \<open>The parameter list and the parameter block\<close>

lemma names_loop_result:
  assumes "length names \<le> length types"
  shows "\<exists>params'.
           names_loop names types params order
             = Inr (params', order @ map (\<lambda>(n, t). all_text n)
                                      (filter (\<lambda>(n, t). all_text t \<noteq> ''void'') (zip names types)))
           \<and> fst ` set params'
               = fst ` set params
                 \<union> set (map (\<lambda>(n, t). all_text n)
                          (filter (\<lambda>(n, t). all_text t \<noteq> ''void'') (zip names types)))"
  using assms
proof (induction names types params order rule: names_loop.induct)
  case (1 types_iter params param_order)
  then show ?case by simp
next
  case (2 n names params param_order)
  then show ?case by simp
next
  case (3 n names t types_iter params param_order)
  show ?case
  proof (cases "all_text t = ''void''")
    case True
    with 3 show ?thesis by simp
  next
    case False
    from 3 have len: "length names \<le> length types_iter" by simp
    from "3.IH"(2) [OF refl False len] obtain params' where
      "names_loop names types_iter
         (AList.update (all_text n) \<lparr>p_type = all_text t, p_desc = None\<rparr> params)
         (param_order @ [all_text n])
       = Inr (params', (param_order @ [all_text n]) @ map (\<lambda>(n, t). all_text n)
                (filter (\<lambda>(n, t). all_text t \<noteq> ''void'') (zip names types_iter)))"
      and "fst ` set params'
             = fst ` set (AList.update (all_text n) \<lparr>p_type = all_text t, p_desc = None\<rparr> params)
               \<union> set (map (\<lambda>(n, t). all_text n)
                        (filter (\<lambda>(n, t). all_text t \<noteq> ''void'') (zip names types_iter)))"
      by blast
    with False show ?thesis
      by (simp add: dom_update)
  qed
qed

lemma items_loop_keys:
  "items_loop items params ref_dict = Inr params' \<Longrightarrow> map fst params' = map fst params"
proof (induction items arbitrary: params)
  case Nil
  then show ?case by simp
next
  case (Cons item items)
  from Cons.prems obtain pn pd info where
    look: "map_of params pn = Some info"
    and rest: "items_loop items (AList.update pn (info\<lparr>p_desc := Some pd\<rparr>) params) ref_dict = Inr params'"
    by (auto simp: ebind_eq_Inr split: option.splits)
  from look have "pn \<in> set (map fst params)"
    by (metis map_of_eq_None_iff option.distinct(1) set_map)
  then have "map fst (AList.update pn (info\<lparr>p_desc := Some pd\<rparr>) params) = map fst params"
    by (simp add: update_keys)
  with Cons.IH [OF rest] show ?case by simp
qed

lemma generate_param_string_Inr:
  "generate_param_string info pn
     = Inr ([BS] @ ''param{'' @ spec_escape (p_type info) @ ''}{'' @ spec_escape pn @ ''}{''
              @ todo_if_empty (strip (case p_desc info of None \<Rightarrow> [] | Some d \<Rightarrow> d))
              @ ''}\<newline>'')"
  by (simp add: generate_param_string_def text_escape_eq)

lemma params_str_loop_exact:
  assumes "set order \<subseteq> fst ` set params"
  shows "\<exists>entries.
           params_str_loop order params = Inr (concat entries)
         \<and> list_all2 (\<lambda>pn e. \<exists>info t nm.
                          map_of params pn = Some info
                        \<and> text_escape (p_type info) = Inr t \<and> text_escape pn = Inr nm
                        \<and> e = [BS] @ ''param{'' @ t @ ''}{'' @ nm @ ''}{''
                                @ todo_if_empty (strip (case p_desc info of None \<Rightarrow> [] | Some d \<Rightarrow> d))
                                @ ''}\<newline>'')
             order entries"
  using assms
proof (induction order)
  case Nil
  show ?case by (intro exI [of _ "[]"]) simp
next
  case (Cons pn order)
  from Cons.prems have "pn \<in> fst ` set params" and sub: "set order \<subseteq> fst ` set params"
    by simp_all
  then obtain info where look: "map_of params pn = Some info"
    by (metis map_of_eq_None_iff not_Some_eq)
  let ?e = "[BS] @ ''param{'' @ spec_escape (p_type info) @ ''}{'' @ spec_escape pn @ ''}{''
              @ todo_if_empty (strip (case p_desc info of None \<Rightarrow> [] | Some d \<Rightarrow> d))
              @ ''}\<newline>''"
  from Cons.IH [OF sub] obtain entries where
    r: "params_str_loop order params = Inr (concat entries)"
    and all: "list_all2 (\<lambda>pn e. \<exists>info t nm.
                          map_of params pn = Some info
                        \<and> text_escape (p_type info) = Inr t \<and> text_escape pn = Inr nm
                        \<and> e = [BS] @ ''param{'' @ t @ ''}{'' @ nm @ ''}{''
                                @ todo_if_empty (strip (case p_desc info of None \<Rightarrow> [] | Some d \<Rightarrow> d))
                                @ ''}\<newline>'')
             order entries"
    by blast
  have "params_str_loop (pn # order) params = Inr (concat (?e # entries))"
    using look r by (simp add: generate_param_string_Inr)
  moreover have "\<exists>info' t nm.
                   map_of params pn = Some info'
                 \<and> text_escape (p_type info') = Inr t \<and> text_escape pn = Inr nm
                 \<and> ?e = [BS] @ ''param{'' @ t @ ''}{'' @ nm @ ''}{''
                          @ todo_if_empty (strip (case p_desc info' of None \<Rightarrow> [] | Some d \<Rightarrow> d))
                          @ ''}\<newline>''"
    using look by (simp add: text_escape_eq)
  ultimately show ?case
    using all by (intro exI [of _ "?e # entries"]) simp
qed

lemma length_filter_void:
  "length (filter (\<lambda>(n, t). all_text t \<noteq> ''void'') xs)
     + length (filter (\<lambda>(n, t). all_text t = ''void'') xs) = length xs"
  by (induction xs) auto

text \<open>
  C2. For every member whose types after the first are at least as many as its declared
  names, the loop over the names returns the parameter list: the declared names, in
  declaration order, without those whose paired type is literally \<^verbatim>\<open>void\<close>; its length is
  the number of names minus the number of such positions. Whenever the documented parameter
  items are attached without error, the parameter block is produced and is exactly: the
  canonical \<^verbatim>\<open>param{void}{}{}\<close> string when that list is empty (so for a member whose only
  parameter has type \<^verbatim>\<open>void\<close> and no name), and otherwise the concatenation of one
  \<^verbatim>\<open>param\<close> entry for each name of the list, in order, each holding the escaped type, the
  escaped name and the description (or the to-do marker) of that name; that block is the
  second component of what \<open>parse_detailed_desc\<close> returns once the details and the return
  documentation are produced, and every block that \<open>parse_detailed_desc\<close> returns arises so.
\<close>

theorem parameter_list:
  assumes "find_all ''type'' parent = ret_type # types_iter"
    and "length (find_all ''declname'' parent) \<le> length types_iter"
  shows "\<exists>params0 param_order.
           names_loop (find_all ''declname'' parent) types_iter [] [] = Inr (params0, param_order)
         \<and> param_order
             = map (\<lambda>(n, t). all_text n)
                 (filter (\<lambda>(n, t). all_text t \<noteq> ''void'')
                    (zip (find_all ''declname'' parent) types_iter))
         \<and> length param_order
             = length (find_all ''declname'' parent)
               - length (filter (\<lambda>(n, t). all_text t = ''void'')
                           (zip (find_all ''declname'' parent) types_iter))
         \<and> (\<forall>params.
               items_loop (find_all ''parameteritem'' parent) params0 ref_dict = Inr params \<longrightarrow>
               (\<exists>entries.
                   list_all2 (\<lambda>pn e. \<exists>info t nm.
                                map_of params pn = Some info
                              \<and> text_escape (p_type info) = Inr t \<and> text_escape pn = Inr nm
                              \<and> e = [BS] @ ''param{'' @ t @ ''}{'' @ nm @ ''}{''
                                      @ todo_if_empty
                                          (strip (case p_desc info of None \<Rightarrow> [] | Some d \<Rightarrow> d))
                                      @ ''}\<newline>'')
                     param_order entries
                 \<and> parse_params parent types_iter ref_dict
                     = Inr (if param_order = [] then [BS] @ ''param{void}{}{}''
                            else concat entries)
                 \<and> (\<forall>d r. parse_details parent ref_dict = Inr d \<longrightarrow>
                          parse_return parent ret_type ref_dict = Inr r \<longrightarrow>
                          parse_detailed_desc parent ref_dict
                            = Inr (todo_if_empty (strip d),
                                   (if param_order = [] then [BS] @ ''param{void}{}{}''
                                    else concat entries),
                                   todo_if_empty (strip r)))))
         \<and> (\<forall>details params_str ret.
               parse_detailed_desc parent ref_dict = Inr (details, params_str, ret) \<longrightarrow>
               (\<exists>params.
                   items_loop (find_all ''parameteritem'' parent) params0 ref_dict = Inr params
                 \<and> parse_params parent types_iter ref_dict = Inr params_str))"
proof -
  let ?names = "find_all ''declname'' parent"
  let ?order = "map (\<lambda>(n, t). all_text n)
                  (filter (\<lambda>(n, t). all_text t \<noteq> ''void'') (zip ?names types_iter))"
  let ?block = "\<lambda>entries. if ?order = [] then [BS] @ ''param{void}{}{}'' else concat entries"
  from names_loop_result [OF assms(2), of "[]" "[]"] obtain params0 where
    nl: "names_loop ?names types_iter [] [] = Inr (params0, ?order)"
    and keys: "fst ` set params0 = set ?order"
    by auto
  have "length (filter (\<lambda>(n, t). all_text t \<noteq> ''void'') (zip ?names types_iter))
          + length (filter (\<lambda>(n, t). all_text t = ''void'') (zip ?names types_iter))
        = length (zip ?names types_iter)"
    by (rule length_filter_void)
  with assms(2) have len: "length ?order
      = length ?names - length (filter (\<lambda>(n, t). all_text t = ''void'') (zip ?names types_iter))"
    by simp
  have produced: "\<exists>entries.
        list_all2 (\<lambda>pn e. \<exists>info t nm.
                     map_of params pn = Some info
                   \<and> text_escape (p_type info) = Inr t \<and> text_escape pn = Inr nm
                   \<and> e = [BS] @ ''param{'' @ t @ ''}{'' @ nm @ ''}{''
                           @ todo_if_empty (strip (case p_desc info of None \<Rightarrow> [] | Some d \<Rightarrow> d))
                           @ ''}\<newline>'')
          ?order entries
      \<and> parse_params parent types_iter ref_dict = Inr (?block entries)
      \<and> (\<forall>d r. parse_details parent ref_dict = Inr d \<longrightarrow>
               parse_return parent ret_type ref_dict = Inr r \<longrightarrow>
               parse_detailed_desc parent ref_dict
                 = Inr (todo_if_empty (strip d), ?block entries, todo_if_empty (strip r)))"
    if il: "items_loop (find_all ''parameteritem'' parent) params0 ref_dict = Inr params"
    for params
  proof -
    from items_loop_keys [OF il] keys have ks: "set (map fst params) = set ?order"
      by simp
    then have empty_iff: "params = [] \<longleftrightarrow> ?order = []"
      by (metis list.map_disc_iff set_empty)
    from ks have "set ?order \<subseteq> fst ` set params"
      by simp
    from params_str_loop_exact [OF this] obtain entries where
      loop: "params_str_loop ?order params = Inr (concat entries)"
      and all: "list_all2 (\<lambda>pn e. \<exists>info t nm.
                     map_of params pn = Some info
                   \<and> text_escape (p_type info) = Inr t \<and> text_escape pn = Inr nm
                   \<and> e = [BS] @ ''param{'' @ t @ ''}{'' @ nm @ ''}{''
                           @ todo_if_empty (strip (case p_desc info of None \<Rightarrow> [] | Some d \<Rightarrow> d))
                           @ ''}\<newline>'')
          ?order entries"
      by blast
    have pp: "parse_params parent types_iter ref_dict = Inr (?block entries)"
      using nl il loop empty_iff
      by (simp add: parse_params_def generate_empty_param_string_def)
    have "parse_detailed_desc parent ref_dict
            = Inr (todo_if_empty (strip d), ?block entries, todo_if_empty (strip r))"
      if "parse_details parent ref_dict = Inr d" "parse_return parent ret_type ref_dict = Inr r"
      for d r
      using that pp assms(1) by (simp add: parse_detailed_desc_def)
    with all pp show ?thesis
      by blast
  qed
  have arises: "\<exists>params.
        items_loop (find_all ''parameteritem'' parent) params0 ref_dict = Inr params
      \<and> parse_params parent types_iter ref_dict = Inr params_str"
    if ok: "parse_detailed_desc parent ref_dict = Inr (details, params_str, ret)"
    for details params_str ret
  proof -
    from ok assms(1) have pp: "parse_params parent types_iter ref_dict = Inr params_str"
      by (elim parse_detailed_desc_Inr) simp
    with nl obtain params where
      "items_loop (find_all ''parameteritem'' parent) params0 ref_dict = Inr params"
      by (auto simp: parse_params_def ebind_eq_Inr)
    with pp show ?thesis by blast
  qed
  show ?thesis
  proof (intro exI [of _ params0] exI [of _ ?order] conjI)
    show "names_loop ?names types_iter [] [] = Inr (params0, ?order)" by (rule nl)
    show "?order = ?order" by (rule refl)
    show "length ?order
      = length ?names - length (filter (\<lambda>(n, t). all_text t = ''void'') (zip ?names types_iter))"
      by (rule len)
    show "\<forall>params.
        items_loop (find_all ''parameteritem'' parent) params0 ref_dict = Inr params \<longrightarrow>
        (\<exists>entries.
        list_all2 (\<lambda>pn e. \<exists>info t nm.
                     map_of params pn = Some info
                   \<and> text_escape (p_type info) = Inr t \<and> text_escape pn = Inr nm
                   \<and> e = [BS] @ ''param{'' @ t @ ''}{'' @ nm @ ''}{''
                           @ todo_if_empty (strip (case p_desc info of None \<Rightarrow> [] | Some d \<Rightarrow> d))
                           @ ''}\<newline>'')
          ?order entries
      \<and> parse_params parent types_iter ref_dict = Inr (?block entries)
      \<and> (\<forall>d r. parse_details parent ref_dict = Inr d \<longrightarrow>
               parse_return parent ret_type ref_dict = Inr r \<longrightarrow>
               parse_detailed_desc parent ref_dict
                 = Inr (todo_if_empty (strip d), ?block entries, todo_if_empty (strip r))))"
      by (intro allI impI) (rule produced)
    show "\<forall>details params_str ret.
        parse_detailed_desc parent ref_dict = Inr (details, params_str, ret) \<longrightarrow>
        (\<exists>params.
            items_loop (find_all ''parameteritem'' parent) params0 ref_dict = Inr params
          \<and> parse_params parent types_iter ref_dict = Inr params_str)"
      by (intro allI impI) (rule arises)
  qed
qed

text \<open>Two members: \<^verbatim>\<open>seL4_Yield(void)\<close>, whose only parameter is the unnamed \<^verbatim>\<open>void\<close>, and
  one with two named parameters, the first of them documented.\<close>

definition member_yield :: node where
  "member_yield =
     Tag ''memberdef'' [(''id'', ''group_1a''), (''inline'', ''yes''), (''static'', ''yes'')]
       [Tag ''type'' [] [Text ''void''],
        Tag ''name'' [] [Text ''seL4_Yield''],
        Tag ''param'' [] [Tag ''type'' [] [Text ''void'']],
        Tag ''detaileddescription'' [] []]"

definition dest_item :: node where
  "dest_item =
     Tag ''parameteritem'' []
       [Tag ''parameternamelist'' [] [Tag ''parametername'' [] [Text ''dest'']],
        Tag ''parameterdescription'' [] [Tag ''para'' [] [Text ''The endpoint.'']]]"

definition member_send :: node where
  "member_send =
     Tag ''memberdef'' [(''id'', ''group_1e'')]
       [Tag ''type'' [] [Text ''void''],
        Tag ''name'' [] [Text ''seL4_Send''],
        Tag ''param'' [] [Tag ''type'' [] [Text ''seL4_CPtr''], Tag ''declname'' [] [Text ''dest'']],
        Tag ''param'' [] [Tag ''type'' [] [Text ''seL4_MessageInfo_t''],
                          Tag ''declname'' [] [Text ''msgInfo'']],
        Tag ''detaileddescription'' []
          [Tag ''para'' [] [Tag ''parameterlist'' [(''kind'', ''param'')] [dest_item]]]]"

definition send_block :: string where
  "send_block =
     [BS] @ ''param{seL4'' @ [BS] @ ''_CPtr}{dest}{The endpoint.}\<newline>''
     @ [BS] @ ''param{seL4'' @ [BS] @ ''_MessageInfo'' @ [BS] @ ''_t}{msgInfo}{'' @ [BS] @ ''todo}\<newline>''"

lemma strip_endpoint: "strip ''The endpoint.'' = ''The endpoint.''"
  by (simp add: strip_def is_space_def)

lemma split_void: "split ''void'' = [''void'']"
  by (simp add: split_def is_space_def)

theorem parameter_list_witness:
  "find_all ''type'' member_yield = [Tag ''type'' [] [Text ''void''], Tag ''type'' [] [Text ''void'']]
   \<and> find_all ''declname'' member_yield = []
   \<and> parse_detailed_desc member_yield []
       = Inr ([BS] @ ''todo'', [BS] @ ''param{void}{}{}'', [BS] @ ''noret'')
   \<and> find_all ''type'' member_send
       = [Tag ''type'' [] [Text ''void''], Tag ''type'' [] [Text ''seL4_CPtr''],
          Tag ''type'' [] [Text ''seL4_MessageInfo_t'']]
   \<and> length (find_all ''declname'' member_send) = 2
   \<and> snd (projr (names_loop (find_all ''declname'' member_send)
                     [Tag ''type'' [] [Text ''seL4_CPtr''], Tag ''type'' [] [Text ''seL4_MessageInfo_t'']]
                     [] [])) = [''dest'', ''msgInfo'']
   \<and> items_loop (find_all ''parameteritem'' member_send)
         [(''dest'', \<lparr>p_type = ''seL4_CPtr'', p_desc = None\<rparr>),
          (''msgInfo'', \<lparr>p_type = ''seL4_MessageInfo_t'', p_desc = None\<rparr>)] []
       = Inr [(''dest'', \<lparr>p_type = ''seL4_CPtr'', p_desc = Some ''The endpoint.''\<rparr>),
              (''msgInfo'', \<lparr>p_type = ''seL4_MessageInfo_t'', p_desc = None\<rparr>)]
   \<and> parse_params member_send
         [Tag ''type'' [] [Text ''seL4_CPtr''], Tag ''type'' [] [Text ''seL4_MessageInfo_t'']] []
       = Inr send_block
   \<and> parse_detailed_desc member_send [] = Inr ([BS] @ ''todo'', send_block, [BS] @ ''noret'')"
proof -
  let ?t1 = "Tag ''type'' [] [Text ''seL4_CPtr'']"
  let ?t2 = "Tag ''type'' [] [Text ''seL4_MessageInfo_t'']"
  let ?p0 = "[(''dest'', \<lparr>p_type = ''seL4_CPtr'', p_desc = None\<rparr>),
              (''msgInfo'', \<lparr>p_type = ''seL4_MessageInfo_t'', p_desc = None\<rparr>)]"
  let ?p1 = "[(''dest'', \<lparr>p_type = ''seL4_CPtr'', p_desc = Some ''The endpoint.''\<rparr>),
              (''msgInfo'', \<lparr>p_type = ''seL4_MessageInfo_t'', p_desc = None\<rparr>)]"
  have t1: "find_all ''type'' member_yield
              = Tag ''type'' [] [Text ''void''] # [Tag ''type'' [] [Text ''void'']]"
    by (simp add: member_yield_def find_all_def)
  have n1: "find_all ''declname'' member_yield = []"
    by (simp add: member_yield_def find_all_def)
  have l1: "length (find_all ''declname'' member_yield) \<le> length [Tag ''type'' [] [Text ''void'']]"
    by (simp add: n1)
  have i1: "items_loop (find_all ''parameteritem'' member_yield) [] [] = Inr []"
    by (simp add: member_yield_def find_all_def)
  have d1: "parse_details member_yield [] = Inr []"
    by (simp add: member_yield_def parse_details_def find_all_def find_tag_def find_all_children_def)
  have r1: "parse_return member_yield (Tag ''type'' [] [Text ''void'']) [] = Inr ([BS] @ ''noret'')"
    by (simp add: member_yield_def parse_return_def find_all_def split_void py_last_def
          default_return_doc_def)
  from parameter_list [OF t1 l1, of "[]"] obtain params0 order where
    nl1: "names_loop (find_all ''declname'' member_yield) [Tag ''type'' [] [Text ''void'']] [] []
            = Inr (params0, order)"
    and run1: "\<forall>params.
        items_loop (find_all ''parameteritem'' member_yield) params0 [] = Inr params \<longrightarrow>
        (\<exists>entries.
           parse_params member_yield [Tag ''type'' [] [Text ''void'']] []
             = Inr (if order = [] then [BS] @ ''param{void}{}{}'' else concat entries)
         \<and> (\<forall>d r. parse_details member_yield [] = Inr d \<longrightarrow>
                  parse_return member_yield (Tag ''type'' [] [Text ''void'']) [] = Inr r \<longrightarrow>
                  parse_detailed_desc member_yield []
                    = Inr (todo_if_empty (strip d),
                           (if order = [] then [BS] @ ''param{void}{}{}'' else concat entries),
                           todo_if_empty (strip r))))"
    by blast
  from nl1 n1 have e1: "params0 = []" "order = []"
    by simp_all
  from run1 [rule_format, of "[]"] i1 e1 d1 r1
  have h1: "parse_detailed_desc member_yield []
              = Inr ([BS] @ ''todo'', [BS] @ ''param{void}{}{}'', [BS] @ ''noret'')"
    by (auto simp: todo_if_empty_def strip_Nil strip_noret [simplified])
  have t2: "find_all ''type'' member_send = Tag ''type'' [] [Text ''void''] # [?t1, ?t2]"
    by (simp add: member_send_def dest_item_def find_all_def)
  have n2: "find_all ''declname'' member_send
              = [Tag ''declname'' [] [Text ''dest''], Tag ''declname'' [] [Text ''msgInfo'']]"
    by (simp add: member_send_def dest_item_def find_all_def)
  have l2: "length (find_all ''declname'' member_send) \<le> length [?t1, ?t2]"
    by (simp add: n2)
  have nl2c: "names_loop (find_all ''declname'' member_send) [?t1, ?t2] [] []
                = Inr (?p0, [''dest'', ''msgInfo''])"
    by (simp add: n2)
  have i2: "items_loop (find_all ''parameteritem'' member_send) ?p0 [] = Inr ?p1"
    by (simp add: member_send_def dest_item_def find_all_def find_tag_def item_desc_def
          text_escape_eq spec_escape_def)
  have d2: "parse_details member_send [] = Inr []"
    by (simp add: member_send_def dest_item_def parse_details_def find_all_def find_tag_def
          find_all_children_def)
  have r2: "parse_return member_send (Tag ''type'' [] [Text ''void'']) [] = Inr ([BS] @ ''noret'')"
    by (simp add: member_send_def dest_item_def parse_return_def find_all_def split_void
          py_last_def default_return_doc_def)
  from parameter_list [OF t2 l2, of "[]"] obtain params0' order' where
    nl2: "names_loop (find_all ''declname'' member_send) [?t1, ?t2] [] [] = Inr (params0', order')"
    and run2: "\<forall>params.
        items_loop (find_all ''parameteritem'' member_send) params0' [] = Inr params \<longrightarrow>
        (\<exists>entries.
           list_all2 (\<lambda>pn e. \<exists>info t nm.
                        map_of params pn = Some info
                      \<and> text_escape (p_type info) = Inr t \<and> text_escape pn = Inr nm
                      \<and> e = [BS] @ ''param{'' @ t @ ''}{'' @ nm @ ''}{''
                              @ todo_if_empty (strip (case p_desc info of None \<Rightarrow> [] | Some d \<Rightarrow> d))
                              @ ''}\<newline>'')
             order' entries
         \<and> parse_params member_send [?t1, ?t2] []
             = Inr (if order' = [] then [BS] @ ''param{void}{}{}'' else concat entries)
         \<and> (\<forall>d r. parse_details member_send [] = Inr d \<longrightarrow>
                  parse_return member_send (Tag ''type'' [] [Text ''void'']) [] = Inr r \<longrightarrow>
                  parse_detailed_desc member_send []
                    = Inr (todo_if_empty (strip d),
                           (if order' = [] then [BS] @ ''param{void}{}{}'' else concat entries),
                           todo_if_empty (strip r))))"
    by blast
  from nl2 nl2c have e2: "params0' = ?p0" "order' = [''dest'', ''msgInfo'']"
    by simp_all
  from run2 [rule_format, of ?p1] i2 e2 obtain entries where
    ents: "list_all2 (\<lambda>pn e. \<exists>info t nm.
                        map_of ?p1 pn = Some info
                      \<and> text_escape (p_type info) = Inr t \<and> text_escape pn = Inr nm
                      \<and> e = [BS] @ ''param{'' @ t @ ''}{'' @ nm @ ''}{''
                              @ todo_if_empty (strip (case p_desc info of None \<Rightarrow> [] | Some d \<Rightarrow> d))
                              @ ''}\<newline>'')
             [''dest'', ''msgInfo''] entries"
    and pp: "parse_params member_send [?t1, ?t2] [] = Inr (concat entries)"
    and full: "\<forall>d r. parse_details member_send [] = Inr d \<longrightarrow>
                  parse_return member_send (Tag ''type'' [] [Text ''void'']) [] = Inr r \<longrightarrow>
                  parse_detailed_desc member_send []
                    = Inr (todo_if_empty (strip d), concat entries, todo_if_empty (strip r))"
    by auto
  from ents have "concat entries = send_block"
    by (auto simp: list_all2_Cons1 text_escape_eq spec_escape_def send_block_def
          todo_if_empty_def strip_endpoint strip_Nil)
  with pp full [rule_format, OF d2 r2]
  have pp2: "parse_params member_send [?t1, ?t2] [] = Inr send_block"
    and h2: "parse_detailed_desc member_send [] = Inr ([BS] @ ''todo'', send_block, [BS] @ ''noret'')"
    by (simp_all add: todo_if_empty_def strip_Nil strip_noret [simplified])
  from t1 n1 h1 t2 n2 nl2c i2 pp2 h2 show ?thesis
    by simp
qed

subsection \<open>Lookup failures reach the caller\<close>

lemma names_loop_keys:
  "names_loop names types params order = Inr (params', order') \<Longrightarrow>
     fst ` set params = set order \<Longrightarrow> fst ` set params' = set order'"
proof (induction names types params order rule: names_loop.induct)
  case (1 types_iter params param_order)
  then show ?case by simp
next
  case (2 n names params param_order)
  then show ?case by simp
next
  case (3 n names t types_iter params param_order)
  show ?case
  proof (cases "all_text t = ''void''")
    case True
    with 3 show ?thesis by simp
  next
    case False
    with "3.prems" "3.IH"(2) [OF refl False] show ?thesis
      by (simp add: dom_update)
  qed
qed

lemma items_loop_append:
  "items_loop (xs @ ys) params ref_dict
     = ebind (items_loop xs params ref_dict) (\<lambda>params'. items_loop ys params' ref_dict)"
proof (induction xs arbitrary: params)
  case Nil
  then show ?case by simp
next
  case (Cons x xs)
  show ?case
    by (cases "get_text (find_tag ''parametername'' x) False"; cases "item_desc x ref_dict")
      (simp_all add: Cons.IH split: option.splits)
qed

lemma items_loop_unknown_name:
  assumes "items_loop pre params0 ref_dict = Inr params"
    and "get_text (find_tag ''parametername'' item) False = Inr pn"
    and "item_desc item ref_dict = Inr desc"
    and "pn \<notin> fst ` set params0"
  shows "items_loop (pre @ item # post) params0 ref_dict = Inl KeyError"
proof -
  from items_loop_keys [OF assms(1)] assms(4) have "pn \<notin> fst ` set params"
    by (metis set_map)
  then have "map_of params pn = None"
    by (simp add: map_of_eq_None_iff)
  with assms(1-3) show ?thesis
    by (simp add: items_loop_append)
qed

lemma items_loop_names_known:
  assumes "items_loop items params0 ref_dict = Inr params"
    and "item \<in> set items"
    and "get_text (find_tag ''parametername'' item) False = Inr pn"
  shows "pn \<in> fst ` set params0"
  using assms
proof (induction items arbitrary: params0)
  case Nil
  then show ?case by simp
next
  case (Cons x xs)
  from Cons.prems(1) obtain xn xd info where
    xn: "get_text (find_tag ''parametername'' x) False = Inr xn"
    and look: "map_of params0 xn = Some info"
    and rest: "items_loop xs (AList.update xn (info\<lparr>p_desc := Some xd\<rparr>) params0) ref_dict = Inr params"
    by (auto simp: ebind_eq_Inr split: option.splits)
  from look have inx: "xn \<in> fst ` set params0"
    by (metis map_of_eq_None_iff option.distinct(1))
  show ?case
  proof (cases "item = x")
    case True
    with xn Cons.prems(3) inx show ?thesis by simp
  next
    case False
    with Cons.prems(2) have "item \<in> set xs" by simp
    from Cons.IH [OF rest this Cons.prems(3)] inx show ?thesis
      by (auto simp: dom_update)
  qed
qed

lemma parse_contents_append:
  "parse_contents (xs @ ys) ref_dict
     = ebind (parse_contents xs ref_dict) (\<lambda>a.
       ebind (parse_contents ys ref_dict) (\<lambda>b. Inr (a @ b)))"
proof (induction xs)
  case Nil
  show ?case by (cases "parse_contents ys ref_dict") simp_all
next
  case (Cons x xs)
  show ?case
    by (cases "parse_para x ref_dict"; cases "parse_contents xs ref_dict";
        cases "parse_contents ys ref_dict") (simp_all add: Cons.IH)
qed

lemma details_loop_failure:
  assumes "details_loop before ref_dict = Inr out"
    and "find_tag ''parameterlist'' p = None"
    and "parse_para p ref_dict = Inl e"
  shows "details_loop (before @ p # after) ref_dict = Inl e"
  using assms(1)
proof (induction before arbitrary: out)
  case Nil
  from assms(2,3) show ?case by simp
next
  case (Cons n ns)
  show ?case
  proof (cases "find_tag ''parameterlist'' n")
    case None
    with Cons.prems obtain s r where "parse_para n ref_dict = Inr s"
      and "details_loop ns ref_dict = Inr r"
      by (auto simp: ebind_eq_Inr)
    with None Cons.IH show ?thesis by simp
  next
    case (Some pl)
    with Cons.prems Cons.IH show ?thesis by simp
  qed
qed

lemma simplesect_loop_failure:
  assumes "\<forall>m\<in>set pre. \<exists>k. get_attr (Some m) ''kind'' = Inr k \<and> k \<noteq> ''return''"
    and "get_attr (Some n) ''kind'' = Inr ''return''"
  shows "simplesect_loop (pre @ n # post) d ref_dict = parse_para_opt (find_tag ''para'' n) ref_dict"
  using assms by (induction pre) auto

lemma members_loop_failure:
  assumes "members_loop level before ref_dict = Inr out"
    and "parse_detailed_desc member ref_dict = Inl e"
  shows "members_loop level (before @ member # after) ref_dict = Inl e"
  using assms(1)
proof (induction before arbitrary: out)
  case Nil
  from assms(2) show ?case by simp
next
  case (Cons m ms)
  from Cons.prems obtain res s r where "parse_detailed_desc m ref_dict = Inr res"
    and "generate_api_doc level m (fst (snd res)) (snd (snd res)) (fst res) = Inr s"
    and "members_loop level ms ref_dict = Inr r"
    by (auto simp: ebind_eq_Inr)
  with Cons.IH show ?case
    by (simp add: case_prod_beta)
qed

lemma items_loop_desc_failure:
  assumes "items_loop pre params0 ref_dict = Inr params"
    and "get_text (find_tag ''parametername'' item) False = Inr pn"
    and "item_desc item ref_dict = Inl e"
  shows "items_loop (pre @ item # post) params0 ref_dict = Inl e"
  using assms by (simp add: items_loop_append)

text \<open>
  C6. Lookup failures are not caught anywhere. \<open>ref_format\<close> raises \<^verbatim>\<open>KeyError\<close> on a key
  that is not in the table, so a reference by id or by name whose key is absent from a
  non-empty table fails with \<^verbatim>\<open>KeyError\<close>. For a member with a documented parameter item
  whose name is not among the declared non-void parameter names, \<open>parse_detailed_desc\<close>
  never returns a result, and it fails with \<^verbatim>\<open>KeyError\<close> at the attachment whenever the
  items before it were attached and the description of the item rendered. Every function
  between such a failure and the caller passes the error on unchanged: a paragraph or a list
  whose earlier children rendered, a list item, the description of a parameter item, the
  loop over the items, the parameter block, the loop over the detail paragraphs, the first
  return section, each of the three blocks of \<open>parse_detailed_desc\<close>, the loop over the
  members after the members that went through, and \<open>generate_general_syscall_doc\<close> itself.
\<close>

theorem lookup_failures_propagate:
  "(map_of ref_dict key = None \<longrightarrow> ref_format key ref_dict = Inl KeyError)
   \<and> (ref_dict \<noteq> [] \<longrightarrow> map_of a ''refid'' = Some key \<longrightarrow> map_of ref_dict key = None
        \<longrightarrow> parse_para (Tag ''ref'' a cs) ref_dict = Inl KeyError)
   \<and> (ref_dict \<noteq> [] \<longrightarrow> map_of a ''name'' = Some key \<longrightarrow> map_of ref_dict key = None
        \<longrightarrow> parse_para (Tag ''nameref'' a cs) ref_dict = Inl KeyError)
   \<and> (parse_contents before ref_dict = Inr out \<longrightarrow> parse_para child ref_dict = Inl e
        \<longrightarrow> parse_para (Tag ''para'' a (before @ child # after)) ref_dict = Inl e)
   \<and> (parse_contents before ref_dict = Inr out \<longrightarrow> parse_para child ref_dict = Inl e
        \<longrightarrow> parse_para (Tag ''orderedlist'' a (before @ child # after)) ref_dict = Inl e)
   \<and> (parse_contents before ref_dict = Inr out \<longrightarrow> parse_para child ref_dict = Inl e
        \<longrightarrow> parse_para (Tag ''itemizedlist'' a (before @ child # after)) ref_dict = Inl e)
   \<and> (find_tag ''para'' (Tag ''listitem'' a cs) = Some child \<longrightarrow> parse_para child ref_dict = Inl e
        \<longrightarrow> parse_para (Tag ''listitem'' a cs) ref_dict = Inl e)
   \<and> (find_tag ''parameterdescription'' item = Some desc_node
        \<longrightarrow> find_tag ''para'' desc_node = Some child \<longrightarrow> parse_para child ref_dict = Inl e
        \<longrightarrow> item_desc item ref_dict = Inl e)
   \<and> (items_loop pre params0 ref_dict = Inr params1
        \<longrightarrow> get_text (find_tag ''parametername'' item) False = Inr param_name
        \<longrightarrow> item_desc item ref_dict = Inl e
        \<longrightarrow> items_loop (pre @ item # post) params0 ref_dict = Inl e)
   \<and> (names_loop (find_all ''declname'' parent) types_iter [] [] = Inr (params0, param_order)
        \<longrightarrow> items_loop (find_all ''parameteritem'' parent) params0 ref_dict = Inl e
        \<longrightarrow> parse_params parent types_iter ref_dict = Inl e)
   \<and> (find_tag ''detaileddescription'' parent = Some dd
        \<longrightarrow> find_all_children ''para'' dd = paras @ child # paras'
        \<longrightarrow> details_loop paras ref_dict = Inr out
        \<longrightarrow> find_tag ''parameterlist'' child = None
        \<longrightarrow> parse_para child ref_dict = Inl e
        \<longrightarrow> parse_details parent ref_dict = Inl e)
   \<and> (split (soup_string ret_type) \<noteq> []
        \<longrightarrow> find_all ''simplesect'' parent = sects @ sect # sects'
        \<longrightarrow> (\<forall>m\<in>set sects. \<exists>k. get_attr (Some m) ''kind'' = Inr k \<and> k \<noteq> ''return'')
        \<longrightarrow> get_attr (Some sect) ''kind'' = Inr ''return''
        \<longrightarrow> find_tag ''para'' sect = Some child
        \<longrightarrow> parse_para child ref_dict = Inl e
        \<longrightarrow> parse_return parent ret_type ref_dict = Inl e)
   \<and> (find_all ''type'' parent = ret_type # types_iter
        \<longrightarrow> parse_params parent types_iter ref_dict = Inl e
        \<longrightarrow> parse_detailed_desc parent ref_dict = Inl e)
   \<and> (find_all ''type'' parent = ret_type # types_iter
        \<longrightarrow> parse_params parent types_iter ref_dict = Inr params_str
        \<longrightarrow> parse_details parent ref_dict = Inl e
        \<longrightarrow> parse_detailed_desc parent ref_dict = Inl e)
   \<and> (find_all ''type'' parent = ret_type # types_iter
        \<longrightarrow> parse_params parent types_iter ref_dict = Inr params_str
        \<longrightarrow> parse_details parent ref_dict = Inr details
        \<longrightarrow> parse_return parent ret_type ref_dict = Inl e
        \<longrightarrow> parse_detailed_desc parent ref_dict = Inl e)
   \<and> (find_all ''type'' parent = ret_type # types_iter
        \<longrightarrow> names_loop (find_all ''declname'' parent) types_iter [] [] = Inr (params0, param_order)
        \<longrightarrow> find_all ''parameteritem'' parent = pre @ item # post
        \<longrightarrow> get_text (find_tag ''parametername'' item) False = Inr param_name
        \<longrightarrow> param_name \<notin> set param_order
        \<longrightarrow> (\<exists>err. parse_detailed_desc parent ref_dict = Inl err))
   \<and> (find_all ''type'' parent = ret_type # types_iter
        \<longrightarrow> names_loop (find_all ''declname'' parent) types_iter [] [] = Inr (params0, param_order)
        \<longrightarrow> find_all ''parameteritem'' parent = pre @ item # post
        \<longrightarrow> get_text (find_tag ''parametername'' item) False = Inr param_name
        \<longrightarrow> param_name \<notin> set param_order
        \<longrightarrow> items_loop pre params0 ref_dict = Inr params1
        \<longrightarrow> item_desc item ref_dict = Inr desc
        \<longrightarrow> parse_detailed_desc parent ref_dict = Inl KeyError)
   \<and> (members_loop level members ref_dict = Inr rendered
        \<longrightarrow> parse_detailed_desc member ref_dict = Inl e
        \<longrightarrow> members_loop level (members @ member # members') ref_dict = Inl e)
   \<and> (build_ref_dict soup = Inr ref_dict
        \<longrightarrow> find_tag ''compounddef'' soup = Some summary
        \<longrightarrow> top_loop (find_all_children ''detaileddescription'' summary) = Inr out
        \<longrightarrow> members_loop level (find_all ''memberdef'' soup) ref_dict = Inl e
        \<longrightarrow> generate_general_syscall_doc soup level = Inl e)"
proof (intro conjI impI allI)
  assume "map_of ref_dict key = None"
  then show "ref_format key ref_dict = Inl KeyError"
    by (simp add: ref_format_def)
next
  assume "ref_dict \<noteq> []" "map_of a ''refid'' = Some key" "map_of ref_dict key = None"
  then show "parse_para (Tag ''ref'' a cs) ref_dict = Inl KeyError"
    by (simp add: ref_to_format_def ref_format_def)
next
  assume "ref_dict \<noteq> []" "map_of a ''name'' = Some key" "map_of ref_dict key = None"
  then show "parse_para (Tag ''nameref'' a cs) ref_dict = Inl KeyError"
    by (simp add: nref_to_format_def ref_format_def)
next
  assume "parse_contents before ref_dict = Inr out" "parse_para child ref_dict = Inl e"
  then show "parse_para (Tag ''para'' a (before @ child # after)) ref_dict = Inl e"
    by (simp add: parse_contents_append)
next
  assume "parse_contents before ref_dict = Inr out" "parse_para child ref_dict = Inl e"
  then show "parse_para (Tag ''orderedlist'' a (before @ child # after)) ref_dict = Inl e"
    by (simp add: parse_contents_append)
next
  assume "parse_contents before ref_dict = Inr out" "parse_para child ref_dict = Inl e"
  then show "parse_para (Tag ''itemizedlist'' a (before @ child # after)) ref_dict = Inl e"
    by (simp add: parse_contents_append)
next
  assume "find_tag ''para'' (Tag ''listitem'' a cs) = Some child" "parse_para child ref_dict = Inl e"
  then show "parse_para (Tag ''listitem'' a cs) ref_dict = Inl e"
    by simp
next
  assume "find_tag ''parameterdescription'' item = Some desc_node"
    "find_tag ''para'' desc_node = Some child" "parse_para child ref_dict = Inl e"
  then show "item_desc item ref_dict = Inl e"
    by (simp add: item_desc_def)
next
  assume "items_loop pre params0 ref_dict = Inr params1"
    "get_text (find_tag ''parametername'' item) False = Inr param_name"
    "item_desc item ref_dict = Inl e"
  then show "items_loop (pre @ item # post) params0 ref_dict = Inl e"
    by (rule items_loop_desc_failure)
next
  assume "names_loop (find_all ''declname'' parent) types_iter [] [] = Inr (params0, param_order)"
    "items_loop (find_all ''parameteritem'' parent) params0 ref_dict = Inl e"
  then show "parse_params parent types_iter ref_dict = Inl e"
    by (simp add: parse_params_def)
next
  assume "find_tag ''detaileddescription'' parent = Some dd"
    "find_all_children ''para'' dd = paras @ child # paras'"
    "details_loop paras ref_dict = Inr out"
    "find_tag ''parameterlist'' child = None"
    "parse_para child ref_dict = Inl e"
  then show "parse_details parent ref_dict = Inl e"
    by (simp add: parse_details_def details_loop_failure)
next
  assume "split (soup_string ret_type) \<noteq> []"
    "find_all ''simplesect'' parent = sects @ sect # sects'"
    "\<forall>m\<in>set sects. \<exists>k. get_attr (Some m) ''kind'' = Inr k \<and> k \<noteq> ''return''"
    "get_attr (Some sect) ''kind'' = Inr ''return''"
    "find_tag ''para'' sect = Some child"
    "parse_para child ref_dict = Inl e"
  then show "parse_return parent ret_type ref_dict = Inl e"
    by (simp add: parse_return_def py_last_def simplesect_loop_failure)
next
  assume "find_all ''type'' parent = ret_type # types_iter"
    "parse_params parent types_iter ref_dict = Inl e"
  then show "parse_detailed_desc parent ref_dict = Inl e"
    by (simp add: parse_detailed_desc_def)
next
  assume "find_all ''type'' parent = ret_type # types_iter"
    "parse_params parent types_iter ref_dict = Inr params_str"
    "parse_details parent ref_dict = Inl e"
  then show "parse_detailed_desc parent ref_dict = Inl e"
    by (simp add: parse_detailed_desc_def)
next
  assume "find_all ''type'' parent = ret_type # types_iter"
    "parse_params parent types_iter ref_dict = Inr params_str"
    "parse_details parent ref_dict = Inr details"
    "parse_return parent ret_type ref_dict = Inl e"
  then show "parse_detailed_desc parent ref_dict = Inl e"
    by (simp add: parse_detailed_desc_def)
next
  assume ty: "find_all ''type'' parent = ret_type # types_iter"
    and nl: "names_loop (find_all ''declname'' parent) types_iter [] [] = Inr (params0, param_order)"
    and items: "find_all ''parameteritem'' parent = pre @ item # post"
    and pn: "get_text (find_tag ''parametername'' item) False = Inr param_name"
    and unknown: "param_name \<notin> set param_order"
  from names_loop_keys [OF nl] unknown have nokey: "param_name \<notin> fst ` set params0"
    by simp
  have "items_loop (pre @ item # post) params0 ref_dict \<noteq> Inr params" for params
    using items_loop_names_known [of "pre @ item # post" params0 ref_dict params item param_name]
      pn nokey by auto
  then obtain err where "items_loop (pre @ item # post) params0 ref_dict = Inl err"
    by (cases "items_loop (pre @ item # post) params0 ref_dict") auto
  with ty nl items show "\<exists>err. parse_detailed_desc parent ref_dict = Inl err"
    by (simp add: parse_detailed_desc_def parse_params_def)
next
  assume ty: "find_all ''type'' parent = ret_type # types_iter"
    and nl: "names_loop (find_all ''declname'' parent) types_iter [] [] = Inr (params0, param_order)"
    and items: "find_all ''parameteritem'' parent = pre @ item # post"
    and pn: "get_text (find_tag ''parametername'' item) False = Inr param_name"
    and unknown: "param_name \<notin> set param_order"
    and il: "items_loop pre params0 ref_dict = Inr params1"
    and ds: "item_desc item ref_dict = Inr desc"
  from names_loop_keys [OF nl] unknown have nokey: "param_name \<notin> fst ` set params0"
    by simp
  from items_loop_unknown_name [OF il pn ds nokey, of post] ty nl items
  show "parse_detailed_desc parent ref_dict = Inl KeyError"
    by (simp add: parse_detailed_desc_def parse_params_def)
next
  assume "members_loop level members ref_dict = Inr rendered"
    "parse_detailed_desc member ref_dict = Inl e"
  then show "members_loop level (members @ member # members') ref_dict = Inl e"
    by (rule members_loop_failure)
next
  assume b: "build_ref_dict soup = Inr ref_dict"
    and c: "find_tag ''compounddef'' soup = Some summary"
    and t: "top_loop (find_all_children ''detaileddescription'' summary) = Inr out"
    and m: "members_loop level (find_all ''memberdef'' soup) ref_dict = Inl e"
  from m have "find_all ''memberdef'' soup \<noteq> []"
    by auto
  with b c t m show "generate_general_syscall_doc soup level = Inl e"
    by (simp add: generate_general_syscall_doc_def)
qed

text \<open>
  A table with the two keys of one member; a reference whose id is not in it, alone, in a
  paragraph, in the description of a parameter item and in a return section; a parameter
  item named \<^verbatim>\<open>src\<close>; members that hold them and the documents of two of those members.
\<close>

definition yield_dict :: ref_dict where
  "yield_dict =
     [(''group_1a'', \<lparr>d_name = ''seL4'' @ [BS] @ ''_Yield'', d_label = ''sel4_yield'', d_ref = ''group_1a''\<rparr>),
      (''seL4_Yield'', \<lparr>d_name = ''seL4'' @ [BS] @ ''_Yield'', d_label = ''sel4_yield'', d_ref = ''group_1a''\<rparr>)]"

definition src_item :: node where
  "src_item =
     Tag ''parameteritem'' []
       [Tag ''parameternamelist'' [] [Tag ''parametername'' [] [Text ''src'']],
        Tag ''parameterdescription'' [] [Tag ''para'' [] [Text ''The source.'']]]"

definition bad_ref :: node where
  "bad_ref = Tag ''ref'' [(''refid'', ''group_1z'')] [Text ''seL4_Wait'']"

definition bad_para :: node where
  "bad_para = Tag ''para'' [] ([Text ''See ''] @ bad_ref # [Text ''.''])"

definition bad_desc_item :: node where
  "bad_desc_item =
     Tag ''parameteritem'' []
       [Tag ''parameternamelist'' [] [Tag ''parametername'' [] [Text ''dest'']],
        Tag ''parameterdescription'' [] [bad_para]]"

definition bad_return_sect :: node where
  "bad_return_sect = Tag ''simplesect'' [(''kind'', ''return'')] [bad_para]"

definition member_bad_ref :: node where
  "member_bad_ref =
     Tag ''memberdef'' [(''id'', ''group_1a'')]
       [Tag ''type'' [] [Text ''void''],
        Tag ''name'' [] [Text ''seL4_Yield''],
        Tag ''manual'' [(''name'', ''Yield''), (''label'', ''sel4_yield'')] [],
        Tag ''briefdescription'' [] [Tag ''para'' [] [Text ''Yield.'']],
        Tag ''detaileddescription'' [] [bad_para]]"

definition soup_bad_ref :: node where
  "soup_bad_ref = Tag ''[document]'' [] [Tag ''compounddef'' [] [member_bad_ref]]"

definition member_unknown_param :: node where
  "member_unknown_param =
     Tag ''memberdef'' [(''id'', ''group_1a'')]
       [Tag ''type'' [] [Text ''void''],
        Tag ''name'' [] [Text ''seL4_Yield''],
        Tag ''manual'' [(''name'', ''Yield''), (''label'', ''sel4_yield'')] [],
        Tag ''param'' [] [Tag ''type'' [] [Text ''seL4_CPtr''], Tag ''declname'' [] [Text ''dest'']],
        Tag ''briefdescription'' [] [Tag ''para'' [] [Text ''Yield.'']],
        Tag ''detaileddescription'' []
          [Tag ''para'' [] [Tag ''parameterlist'' [(''kind'', ''param'')] [src_item]]]]"

definition soup_unknown_param :: node where
  "soup_unknown_param = Tag ''[document]'' [] [Tag ''compounddef'' [] [member_unknown_param]]"

definition member_bad_return :: node where
  "member_bad_return =
     Tag ''memberdef'' [(''id'', ''group_1h'')]
       [Tag ''type'' [] [Text ''void''],
        Tag ''name'' [] [Text ''seL4_Poll''],
        Tag ''detaileddescription'' [] [Tag ''para'' [] [bad_return_sect]]]"

definition member_bad_desc :: node where
  "member_bad_desc =
     Tag ''memberdef'' [(''id'', ''group_1i'')]
       [Tag ''type'' [] [Text ''void''],
        Tag ''name'' [] [Text ''seL4_Signal''],
        Tag ''param'' [] [Tag ''type'' [] [Text ''seL4_CPtr''], Tag ''declname'' [] [Text ''dest'']],
        Tag ''detaileddescription'' []
          [Tag ''para'' [] [Tag ''parameterlist'' [(''kind'', ''param'')] [bad_desc_item]]]]"

lemma bad_ref_fails: "parse_para bad_ref yield_dict = Inl KeyError"
  by (simp add: bad_ref_def yield_dict_def ref_to_format_def ref_format_def)

theorem lookup_failures_propagate_witness:
  "yield_dict \<noteq> [] \<and> map_of yield_dict ''group_1z'' = None
   \<and> ref_format ''group_1z'' yield_dict = Inl KeyError
   \<and> parse_para (Tag ''ref'' [(''refid'', ''group_1z'')] [Text ''seL4_Wait'']) yield_dict = Inl KeyError
   \<and> parse_para (Tag ''nameref'' [(''name'', ''group_1z'')] []) yield_dict = Inl KeyError
   \<and> parse_para bad_para yield_dict = Inl KeyError
   \<and> parse_para (Tag ''listitem'' [] [bad_para]) yield_dict = Inl KeyError
   \<and> parse_para (Tag ''orderedlist'' [] ([] @ Tag ''listitem'' [] [bad_para] # [])) yield_dict = Inl KeyError
   \<and> parse_para (Tag ''itemizedlist'' [] ([] @ Tag ''listitem'' [] [bad_para] # [])) yield_dict = Inl KeyError
   \<and> item_desc bad_desc_item yield_dict = Inl KeyError
   \<and> items_loop ([] @ bad_desc_item # []) [(''dest'', \<lparr>p_type = ''seL4_CPtr'', p_desc = None\<rparr>)] yield_dict
       = Inl KeyError
   \<and> parse_details member_bad_ref yield_dict = Inl KeyError
   \<and> parse_return member_bad_return (Tag ''type'' [] [Text ''void'']) yield_dict = Inl KeyError
   \<and> parse_detailed_desc member_bad_return yield_dict = Inl KeyError
   \<and> parse_params member_bad_desc [Tag ''type'' [] [Text ''seL4_CPtr'']] yield_dict = Inl KeyError
   \<and> parse_detailed_desc member_bad_desc yield_dict = Inl KeyError
   \<and> parse_detailed_desc member_bad_ref yield_dict = Inl KeyError
   \<and> build_ref_dict soup_bad_ref = Inr yield_dict
   \<and> generate_general_syscall_doc soup_bad_ref ''subsection'' = Inl KeyError
   \<and> find_all ''parameteritem'' member_unknown_param = [] @ src_item # []
   \<and> get_text (find_tag ''parametername'' src_item) False = Inr ''src''
   \<and> ''src'' \<notin> set [''dest'']
   \<and> parse_detailed_desc member_unknown_param yield_dict = Inl KeyError
   \<and> build_ref_dict soup_unknown_param = Inr yield_dict
   \<and> generate_general_syscall_doc soup_unknown_param ''subsection'' = Inl KeyError"
proof -
  let ?ty = "Tag ''type'' [] [Text ''seL4_CPtr'']"
  let ?void = "Tag ''type'' [] [Text ''void'']"
  let ?p0 = "[(''dest'', \<lparr>p_type = ''seL4_CPtr'', p_desc = None\<rparr>)]"
  let ?li = "Tag ''listitem'' [] [bad_para]"
  have ne: "yield_dict \<noteq> []"
    by (simp add: yield_dict_def)
  have miss: "map_of yield_dict ''group_1z'' = None"
    by (simp add: yield_dict_def)
  have a1: "map_of [(''refid'', ''group_1z'')] ''refid'' = Some ''group_1z''"
    by simp
  have a2: "map_of [(''name'', ''group_1z'')] ''name'' = Some ''group_1z''"
    by simp
  note c_fmt = lookup_failures_propagate [THEN conjunct1, rule_format]
  note c_ref = lookup_failures_propagate [THEN conjunct2, THEN conjunct1, rule_format]
  note c_nref = lookup_failures_propagate [THEN conjunct2, THEN conjunct2, THEN conjunct1, rule_format]
  note c_para = lookup_failures_propagate [THEN conjunct2, THEN conjunct2, THEN conjunct2, THEN conjunct1, rule_format]
  note c_olist = lookup_failures_propagate [THEN conjunct2, THEN conjunct2, THEN conjunct2, THEN conjunct2, THEN conjunct1, rule_format]
  note c_ilist = lookup_failures_propagate [THEN conjunct2, THEN conjunct2, THEN conjunct2, THEN conjunct2, THEN conjunct2, THEN conjunct1, rule_format]
  note c_litem = lookup_failures_propagate [THEN conjunct2, THEN conjunct2, THEN conjunct2, THEN conjunct2, THEN conjunct2, THEN conjunct2, THEN conjunct1, rule_format]
  note c_idesc = lookup_failures_propagate [THEN conjunct2, THEN conjunct2, THEN conjunct2, THEN conjunct2, THEN conjunct2, THEN conjunct2, THEN conjunct2, THEN conjunct1, rule_format]
  note c_iloop = lookup_failures_propagate [THEN conjunct2, THEN conjunct2, THEN conjunct2, THEN conjunct2, THEN conjunct2, THEN conjunct2, THEN conjunct2, THEN conjunct2, THEN conjunct1, rule_format]
  note c_pparams = lookup_failures_propagate [THEN conjunct2, THEN conjunct2, THEN conjunct2, THEN conjunct2, THEN conjunct2, THEN conjunct2, THEN conjunct2, THEN conjunct2, THEN conjunct2, THEN conjunct1, rule_format]
  note c_pdetails = lookup_failures_propagate [THEN conjunct2, THEN conjunct2, THEN conjunct2, THEN conjunct2, THEN conjunct2, THEN conjunct2, THEN conjunct2, THEN conjunct2, THEN conjunct2, THEN conjunct2, THEN conjunct1, rule_format]
  note c_preturn = lookup_failures_propagate [THEN conjunct2, THEN conjunct2, THEN conjunct2, THEN conjunct2, THEN conjunct2, THEN conjunct2, THEN conjunct2, THEN conjunct2, THEN conjunct2, THEN conjunct2, THEN conjunct2, THEN conjunct1, rule_format]
  note c_d1 = lookup_failures_propagate [THEN conjunct2, THEN conjunct2, THEN conjunct2, THEN conjunct2, THEN conjunct2, THEN conjunct2, THEN conjunct2, THEN conjunct2, THEN conjunct2, THEN conjunct2, THEN conjunct2, THEN conjunct2, THEN conjunct1, rule_format]
  note c_d2 = lookup_failures_propagate [THEN conjunct2, THEN conjunct2, THEN conjunct2, THEN conjunct2, THEN conjunct2, THEN conjunct2, THEN conjunct2, THEN conjunct2, THEN conjunct2, THEN conjunct2, THEN conjunct2, THEN conjunct2, THEN conjunct2, THEN conjunct1, rule_format]
  note c_d3 = lookup_failures_propagate [THEN conjunct2, THEN conjunct2, THEN conjunct2, THEN conjunct2, THEN conjunct2, THEN conjunct2, THEN conjunct2, THEN conjunct2, THEN conjunct2, THEN conjunct2, THEN conjunct2, THEN conjunct2, THEN conjunct2, THEN conjunct2, THEN conjunct1, rule_format]
  note c_attach_any = lookup_failures_propagate [THEN conjunct2, THEN conjunct2, THEN conjunct2, THEN conjunct2, THEN conjunct2, THEN conjunct2, THEN conjunct2, THEN conjunct2, THEN conjunct2, THEN conjunct2, THEN conjunct2, THEN conjunct2, THEN conjunct2, THEN conjunct2, THEN conjunct2, THEN conjunct1, rule_format]
  note c_attach = lookup_failures_propagate [THEN conjunct2, THEN conjunct2, THEN conjunct2, THEN conjunct2, THEN conjunct2, THEN conjunct2, THEN conjunct2, THEN conjunct2, THEN conjunct2, THEN conjunct2, THEN conjunct2, THEN conjunct2, THEN conjunct2, THEN conjunct2, THEN conjunct2, THEN conjunct2, THEN conjunct1, rule_format]
  note c_mloop = lookup_failures_propagate [THEN conjunct2, THEN conjunct2, THEN conjunct2, THEN conjunct2, THEN conjunct2, THEN conjunct2, THEN conjunct2, THEN conjunct2, THEN conjunct2, THEN conjunct2, THEN conjunct2, THEN conjunct2, THEN conjunct2, THEN conjunct2, THEN conjunct2, THEN conjunct2, THEN conjunct2, THEN conjunct1, rule_format]
  note c_doc = lookup_failures_propagate [THEN conjunct2, THEN conjunct2, THEN conjunct2, THEN conjunct2, THEN conjunct2, THEN conjunct2, THEN conjunct2, THEN conjunct2, THEN conjunct2, THEN conjunct2, THEN conjunct2, THEN conjunct2, THEN conjunct2, THEN conjunct2, THEN conjunct2, THEN conjunct2, THEN conjunct2, THEN conjunct2, rule_format]
  from c_fmt [OF miss] have r1: "ref_format ''group_1z'' yield_dict = Inl KeyError" .
  from c_ref [OF ne a1 miss]
  have r2: "parse_para (Tag ''ref'' [(''refid'', ''group_1z'')] [Text ''seL4_Wait'']) yield_dict
              = Inl KeyError" .
  from c_nref [OF ne a2 miss]
  have r3: "parse_para (Tag ''nameref'' [(''name'', ''group_1z'')] []) yield_dict = Inl KeyError" .
  have pre: "parse_contents [Text ''See ''] yield_dict = Inr ''See ''"
    by (simp add: text_escape_eq spec_escape_def)
  from r2 have r2': "parse_para bad_ref yield_dict = Inl KeyError"
    by (simp add: bad_ref_def)
  from c_para [OF pre r2', of "[]" "[Text ''.'']"]
  have r4: "parse_para bad_para yield_dict = Inl KeyError"
    by (simp add: bad_para_def)
  have fp: "find_tag ''para'' (Tag ''listitem'' [] [bad_para]) = Some bad_para"
    by (simp add: find_tag_def find_all_def bad_para_def)
  from c_litem [OF fp r4] have r5: "parse_para ?li yield_dict = Inl KeyError" .
  have nil: "parse_contents [] yield_dict = Inr []"
    by simp
  from c_olist [OF nil r5, of "[]" "[]"]
  have r6: "parse_para (Tag ''orderedlist'' [] ([] @ ?li # [])) yield_dict = Inl KeyError" .
  from c_ilist [OF nil r5, of "[]" "[]"]
  have r7: "parse_para (Tag ''itemizedlist'' [] ([] @ ?li # [])) yield_dict = Inl KeyError" .
  have fd: "find_tag ''parameterdescription'' bad_desc_item
              = Some (Tag ''parameterdescription'' [] [bad_para])"
    by (simp add: bad_desc_item_def find_tag_def find_all_def bad_para_def bad_ref_def)
  have fdp: "find_tag ''para'' (Tag ''parameterdescription'' [] [bad_para]) = Some bad_para"
    by (simp add: find_tag_def find_all_def bad_para_def)
  have pn: "get_text (find_tag ''parametername'' bad_desc_item) False = Inr ''dest''"
    by (simp add: bad_desc_item_def find_tag_def find_all_def bad_para_def bad_ref_def)
  have il0: "items_loop [] ?p0 yield_dict = Inr ?p0"
    by simp
  from c_idesc [OF fd fdp r4] have r8: "item_desc bad_desc_item yield_dict = Inl KeyError" .
  from c_iloop [OF il0 pn r8, of "[]"]
  have r9: "items_loop ([] @ bad_desc_item # []) ?p0 yield_dict = Inl KeyError" .
  have ty: "find_all ''type'' member_bad_ref = ?void # []"
    by (simp add: member_bad_ref_def find_all_def bad_para_def bad_ref_def)
  have pp: "parse_params member_bad_ref [] yield_dict = Inr generate_empty_param_string"
    by (simp add: member_bad_ref_def parse_params_def find_all_def bad_para_def bad_ref_def)
  have dd: "find_tag ''detaileddescription'' member_bad_ref
              = Some (Tag ''detaileddescription'' [] [bad_para])"
    by (simp add: member_bad_ref_def find_tag_def find_all_def bad_para_def bad_ref_def)
  have ch: "find_all_children ''para'' (Tag ''detaileddescription'' [] [bad_para])
              = [] @ bad_para # []"
    by (simp add: find_all_children_def bad_para_def)
  have dl0: "details_loop [] yield_dict = Inr []"
    by simp
  have npl: "find_tag ''parameterlist'' bad_para = None"
    by (simp add: find_tag_def find_all_def bad_para_def bad_ref_def)
  from c_pdetails [OF dd ch dl0 npl r4]
  have r10: "parse_details member_bad_ref yield_dict = Inl KeyError" .
  from c_d2 [OF ty pp r10]
  have r11: "parse_detailed_desc member_bad_ref yield_dict = Inl KeyError" .
  have ml0: "members_loop ''subsection'' [] yield_dict = Inr []"
    by simp
  from c_mloop [OF ml0 r11, of "[]"]
  have r12: "members_loop ''subsection'' ([] @ member_bad_ref # []) yield_dict = Inl KeyError" .
  have fa: "find_all ''memberdef'' soup_bad_ref = [member_bad_ref]"
    by (simp add: soup_bad_ref_def member_bad_ref_def find_all_def bad_para_def bad_ref_def)
  have b: "build_ref_dict soup_bad_ref = Inr yield_dict"
    by (simp add: build_ref_dict_def fa)
       (simp add: member_ref_def member_bad_ref_def find_tag_def find_all_def bad_para_def
          bad_ref_def text_escape_eq spec_escape_def yield_dict_def)
  have cd: "find_tag ''compounddef'' soup_bad_ref = Some (Tag ''compounddef'' [] [member_bad_ref])"
    by (simp add: soup_bad_ref_def member_bad_ref_def find_tag_def find_all_def bad_para_def
          bad_ref_def)
  have tl: "top_loop (find_all_children ''detaileddescription''
              (Tag ''compounddef'' [] [member_bad_ref])) = Inr []"
    by (simp add: find_all_children_def member_bad_ref_def)
  from r12 fa have ml: "members_loop ''subsection'' (find_all ''memberdef'' soup_bad_ref) yield_dict
                          = Inl KeyError"
    by simp
  from c_doc [OF b cd tl ml]
  have r13: "generate_general_syscall_doc soup_bad_ref ''subsection'' = Inl KeyError" .
  have ty2: "find_all ''type'' member_unknown_param = ?void # [?ty]"
    by (simp add: member_unknown_param_def src_item_def find_all_def)
  have nl2: "names_loop (find_all ''declname'' member_unknown_param) [?ty] [] []
               = Inr (?p0, [''dest''])"
    by (simp add: member_unknown_param_def src_item_def find_all_def)
  have items2: "find_all ''parameteritem'' member_unknown_param = [] @ src_item # []"
    by (simp add: member_unknown_param_def src_item_def find_all_def)
  have pn2: "get_text (find_tag ''parametername'' src_item) False = Inr ''src''"
    by (simp add: src_item_def find_tag_def find_all_def)
  have unknown: "''src'' \<notin> set [''dest'']"
    by simp
  have desc2: "item_desc src_item yield_dict = Inr ''The source.''"
    by (simp add: item_desc_def src_item_def find_tag_def find_all_def text_escape_eq spec_escape_def)
  from c_attach [OF ty2 nl2 items2 pn2 unknown il0 desc2]
  have r14: "parse_detailed_desc member_unknown_param yield_dict = Inl KeyError" .
  from c_mloop [OF ml0 r14, of "[]"]
  have r15: "members_loop ''subsection'' ([] @ member_unknown_param # []) yield_dict = Inl KeyError" .
  have fa2: "find_all ''memberdef'' soup_unknown_param = [member_unknown_param]"
    by (simp add: soup_unknown_param_def member_unknown_param_def src_item_def find_all_def)
  have b2: "build_ref_dict soup_unknown_param = Inr yield_dict"
    by (simp add: build_ref_dict_def fa2)
       (simp add: member_ref_def member_unknown_param_def src_item_def find_tag_def find_all_def
          text_escape_eq spec_escape_def yield_dict_def)
  have cd2: "find_tag ''compounddef'' soup_unknown_param
               = Some (Tag ''compounddef'' [] [member_unknown_param])"
    by (simp add: soup_unknown_param_def member_unknown_param_def src_item_def find_tag_def
          find_all_def)
  have tl2: "top_loop (find_all_children ''detaileddescription''
               (Tag ''compounddef'' [] [member_unknown_param])) = Inr []"
    by (simp add: find_all_children_def member_unknown_param_def)
  from r15 fa2
  have ml2: "members_loop ''subsection'' (find_all ''memberdef'' soup_unknown_param) yield_dict
               = Inl KeyError"
    by simp
  from c_doc [OF b2 cd2 tl2 ml2]
  have r16: "generate_general_syscall_doc soup_unknown_param ''subsection'' = Inl KeyError" .
  have sv: "split (soup_string ?void) \<noteq> []"
    by (simp add: split_def is_space_def)
  have ss: "find_all ''simplesect'' member_bad_return = [] @ bad_return_sect # []"
    by (simp add: member_bad_return_def bad_return_sect_def bad_para_def bad_ref_def find_all_def)
  have nopre: "\<forall>m\<in>set []. \<exists>k. get_attr (Some m) ''kind'' = Inr k \<and> k \<noteq> ''return''"
    by simp
  have kr: "get_attr (Some bad_return_sect) ''kind'' = Inr ''return''"
    by (simp add: bad_return_sect_def)
  have fr: "find_tag ''para'' bad_return_sect = Some bad_para"
    by (simp add: bad_return_sect_def find_tag_def find_all_def bad_para_def)
  from c_preturn [OF sv ss nopre [rule_format] kr fr r4]
  have r17: "parse_return member_bad_return ?void yield_dict = Inl KeyError" .
  have ty3: "find_all ''type'' member_bad_return = ?void # []"
    by (simp add: member_bad_return_def bad_return_sect_def bad_para_def bad_ref_def find_all_def)
  have pp3: "parse_params member_bad_return [] yield_dict = Inr generate_empty_param_string"
    by (simp add: member_bad_return_def bad_return_sect_def bad_para_def bad_ref_def
          parse_params_def find_all_def)
  have pd3: "parse_details member_bad_return yield_dict = Inr ''\<newline>\<newline>''"
    by (simp add: member_bad_return_def bad_return_sect_def bad_para_def bad_ref_def
          parse_details_def find_tag_def find_all_def find_all_children_def)
  from c_d3 [OF ty3 pp3 pd3 r17]
  have r18: "parse_detailed_desc member_bad_return yield_dict = Inl KeyError" .
  have ty4: "find_all ''type'' member_bad_desc = ?void # [?ty]"
    by (simp add: member_bad_desc_def bad_desc_item_def bad_para_def bad_ref_def find_all_def)
  have nl4: "names_loop (find_all ''declname'' member_bad_desc) [?ty] [] [] = Inr (?p0, [''dest''])"
    by (simp add: member_bad_desc_def bad_desc_item_def bad_para_def bad_ref_def find_all_def)
  have it4: "find_all ''parameteritem'' member_bad_desc = [] @ bad_desc_item # []"
    by (simp add: member_bad_desc_def bad_desc_item_def bad_para_def bad_ref_def find_all_def)
  from r9 it4 have il4: "items_loop (find_all ''parameteritem'' member_bad_desc) ?p0 yield_dict
                           = Inl KeyError"
    by simp
  from c_pparams [OF nl4 il4]
  have r19: "parse_params member_bad_desc [?ty] yield_dict = Inl KeyError" .
  from c_d1 [OF ty4 r19]
  have r20: "parse_detailed_desc member_bad_desc yield_dict = Inl KeyError" .
  from ne miss r1 r2 r3 r4 r5 r6 r7 r8 r9 r10 r17 r18 r19 r20 r11 b r13 items2 pn2 unknown
    r14 b2 r16
  show ?thesis
    by simp
qed

subsection \<open>The reference table\<close>

text \<open>The two stores of one turn of the loop of \<open>build_ref_dict\<close>, and those of a list of
  member entries in turn.\<close>

definition stores :: "(string \<times> string \<times> ref_data) list \<Rightarrow> ref_dict \<Rightarrow> ref_dict" where
  "stores es ret = fold (\<lambda>(ref_id, name, data) r. AList.update name data (AList.update ref_id data r)) es ret"

lemma stores_Nil: "stores [] ret = ret"
  by (simp add: stores_def)

lemma stores_Cons:
  "stores ((i, n, d) # es) ret = stores es (AList.update n d (AList.update i d ret))"
  by (simp add: stores_def)

lemma stores_snoc:
  "stores (es @ [(i, n, d)]) ret = AList.update n d (AList.update i d (stores es ret))"
  by (simp add: stores_def)

lemma ref_dict_loop_stores:
  "emap member_ref ms = Inr es \<Longrightarrow> ref_dict_loop ms ret = Inr (stores es ret)"
proof (induction ms arbitrary: es ret)
  case Nil
  then show ?case by (simp add: stores_Nil)
next
  case (Cons m ms)
  from Cons.prems obtain e es' where
    e: "member_ref m = Inr e" and es': "emap member_ref ms = Inr es'" and es: "es = e # es'"
    by (auto simp: ebind_eq_Inr)
  obtain i n d where "e = (i, n, d)" by (cases e)
  with e es Cons.IH [OF es'] show ?case
    by (simp add: stores_Cons)
qed

lemma emap_length: "emap f xs = Inr ys \<Longrightarrow> length ys = length xs"
  by (induction xs arbitrary: ys) (auto simp: ebind_eq_Inr)

lemma emap_set: "emap f xs = Inr ys \<Longrightarrow> y \<in> set ys \<Longrightarrow> \<exists>x\<in>set xs. f x = Inr y"
  by (induction xs arbitrary: ys) (auto simp: ebind_eq_Inr)

lemma stores_keys:
  "fst ` set (stores es ret) = fst ` set ret \<union> fst ` set es \<union> (fst \<circ> snd) ` set es"
proof (induction es rule: rev_induct)
  case Nil
  show ?case by (simp add: stores_Nil)
next
  case (snoc e es)
  obtain i n d where e: "e = (i, n, d)" by (cases e)
  show ?case
    unfolding e stores_snoc dom_update using snoc.IH by auto
qed

lemma stores_distinct:
  "distinct (map fst ret) \<Longrightarrow> distinct (map fst (stores es ret))"
proof (induction es rule: rev_induct)
  case Nil
  then show ?case by (simp add: stores_Nil)
next
  case (snoc e es)
  obtain i n d where e: "e = (i, n, d)" by (cases e)
  from snoc show ?case
    unfolding e stores_snoc by (simp add: distinct_update)
qed

lemma stores_last_writer:
  assumes "k = i \<or> k = n"
    and "\<forall>(i', n', d') \<in> set post. i' \<noteq> k \<and> n' \<noteq> k"
  shows "map_of (stores (pre @ (i, n, d) # post) ret) k = Some d"
  using assms(2)
proof (induction post rule: rev_induct)
  case Nil
  have "stores (pre @ [(i, n, d)]) ret = AList.update n d (AList.update i d (stores pre ret))"
    by (rule stores_snoc)
  with assms(1) show ?case
    by (auto simp: update_conv')
next
  case (snoc e post)
  obtain i' n' d' where e: "e = (i', n', d')" by (cases e)
  from snoc.prems e have ne: "i' \<noteq> k" "n' \<noteq> k"
    and rest: "\<forall>(i', n', d') \<in> set post. i' \<noteq> k \<and> n' \<noteq> k"
    by auto
  have "stores (pre @ (i, n, d) # post @ [e]) ret
          = AList.update n' d' (AList.update i' d' (stores (pre @ (i, n, d) # post) ret))"
    using stores_snoc [of "pre @ (i, n, d) # post" i' n' d' ret] by (simp add: e)
  with ne snoc.IH [OF rest] show ?case
    by (simp add: update_conv')
qed

lemma stores_value:
  "map_of (stores es ret) k = Some v \<Longrightarrow>
     map_of ret k = Some v \<or> (\<exists>(i, n, d) \<in> set es. v = d \<and> (k = i \<or> k = n))"
proof (induction es arbitrary: v rule: rev_induct)
  case Nil
  then show ?case by (simp add: stores_Nil)
next
  case (snoc e es)
  obtain i n d where e: "e = (i, n, d)" by (cases e)
  show ?case
  proof (cases "k = i \<or> k = n")
    case True
    with snoc.prems have "v = d"
      unfolding e stores_snoc by (auto simp: update_conv' split: if_splits)
    with True e show ?thesis by auto
  next
    case False
    with snoc.prems have "map_of (stores es ret) k = Some v"
      unfolding e stores_snoc by (simp add: update_conv')
    from snoc.IH [OF this] show ?thesis by auto
  qed
qed

lemma member_ref_fields:
  "member_ref m = Inr (i, n, d) \<Longrightarrow> text_escape n = Inr (d_name d) \<and> d_ref d = i"
  by (auto simp: member_ref_def ebind_eq_Inr Let_def split: option.splits)

text \<open>
  C4. When every member yields its id, raw name and descriptor (the list \<open>es\<close>, one entry
  for each of the N members), \<open>build_ref_dict\<close> returns a table such that: if the ids and
  the names are all different from one another, the table has exactly 2N entries and each
  member's id key and name key are bound to that member's descriptor, so that both lookups
  return the same data; a member's name key is bound to its descriptor whenever no later
  member writes that key, so of two members sharing a name the later one wins; and with
  distinct ids that no name equals, every id key stays bound to its own member.
\<close>

theorem ref_dict_entries:
  assumes "emap member_ref (find_all ''memberdef'' soup) = Inr es"
  shows "\<exists>ref_dict.
           build_ref_dict soup = Inr ref_dict
         \<and> length es = length (find_all ''memberdef'' soup)
         \<and> (distinct (map fst es @ map (fst \<circ> snd) es) \<longrightarrow>
              length ref_dict = 2 * length es
              \<and> (\<forall>(i, n, d) \<in> set es. map_of ref_dict i = Some d \<and> map_of ref_dict n = Some d))
         \<and> (\<forall>pre i n d post.
               es = pre @ (i, n, d) # post
               \<longrightarrow> (\<forall>(i', n', d') \<in> set post. i' \<noteq> n \<and> n' \<noteq> n)
               \<longrightarrow> map_of ref_dict n = Some d)
         \<and> (distinct (map fst es) \<longrightarrow> fst ` set es \<inter> (fst \<circ> snd) ` set es = {}
              \<longrightarrow> (\<forall>(i, n, d) \<in> set es. map_of ref_dict i = Some d))"
proof -
  let ?tbl = "stores es []"
  have built: "build_ref_dict soup = Inr ?tbl"
    using ref_dict_loop_stores [OF assms] by (simp add: build_ref_dict_def)
  have len: "length es = length (find_all ''memberdef'' soup)"
    by (rule emap_length [OF assms])
  have id_key: "map_of ?tbl i = Some d"
    if mem: "(i, n, d) \<in> set es" and dist: "distinct (map fst es)"
      and disj: "fst ` set es \<inter> (fst \<circ> snd) ` set es = {}"
    for i n d
  proof -
    from mem obtain pre post where sp: "es = pre @ (i, n, d) # post"
      by (auto dest: split_list)
    have "\<forall>(i', n', d') \<in> set post. i' \<noteq> i \<and> n' \<noteq> i"
    proof (clarify, rule conjI)
      fix i' n' d'
      assume p: "(i', n', d') \<in> set post"
      from dist sp have "i \<notin> fst ` set post" by auto
      with p show "i' \<noteq> i" by force
      from p sp have "n' \<in> (fst \<circ> snd) ` set es" by force
      moreover from sp have "i \<in> fst ` set es" by force
      ultimately show "n' \<noteq> i" using disj by auto
    qed
    from stores_last_writer [where k = i and i = i and n = n and d = d and pre = pre
        and ret = "[]", OF _ this] sp
    show ?thesis by simp
  qed
  have name_key: "map_of ?tbl n = Some d"
    if sp: "es = pre @ (i, n, d) # post"
      and later: "\<forall>(i', n', d') \<in> set post. i' \<noteq> n \<and> n' \<noteq> n"
    for pre i n d post
    using stores_last_writer [where k = n and i = i and n = n and d = d and pre = pre
        and ret = "[]", OF _ later] sp
    by simp
  have all: "length ?tbl = 2 * length es
      \<and> (\<forall>(i, n, d) \<in> set es. map_of ?tbl i = Some d \<and> map_of ?tbl n = Some d)"
    if dist: "distinct (map fst es @ map (fst \<circ> snd) es)"
  proof
    have "distinct (map fst ?tbl)"
      by (rule stores_distinct) simp
    then have "length ?tbl = card (fst ` set ?tbl)"
      by (metis distinct_card length_map set_map)
    also have "fst ` set ?tbl = set (map fst es @ map (fst \<circ> snd) es)"
      by (simp add: stores_keys)
    also have "card \<dots> = length (map fst es @ map (fst \<circ> snd) es)"
      by (rule distinct_card [OF dist])
    finally show "length ?tbl = 2 * length es" by simp
  next
    from dist have d1: "distinct (map fst es)"
      and d2: "distinct (map (fst \<circ> snd) es)"
      and dj: "fst ` set es \<inter> (fst \<circ> snd) ` set es = {}"
      by auto
    show "\<forall>(i, n, d) \<in> set es. map_of ?tbl i = Some d \<and> map_of ?tbl n = Some d"
    proof (clarify, rule conjI)
      fix i n d
      assume mem: "(i, n, d) \<in> set es"
      from id_key [OF mem d1 dj] show "map_of ?tbl i = Some d" .
      from mem obtain pre post where sp: "es = pre @ (i, n, d) # post"
        by (auto dest: split_list)
      have "\<forall>(i', n', d') \<in> set post. i' \<noteq> n \<and> n' \<noteq> n"
      proof (clarify, rule conjI)
        fix i' n' d'
        assume p: "(i', n', d') \<in> set post"
        from p sp have "i' \<in> fst ` set es" by force
        moreover from sp have "n \<in> (fst \<circ> snd) ` set es" by force
        ultimately show "i' \<noteq> n" using dj by auto
        from d2 sp have "n \<notin> (fst \<circ> snd) ` set post" by auto
        with p show "n' \<noteq> n" by force
      qed
      from name_key [OF sp this] show "map_of ?tbl n = Some d" .
    qed
  qed
  show ?thesis
  proof (intro exI [of _ ?tbl] conjI)
    show "build_ref_dict soup = Inr ?tbl" by (rule built)
    show "length es = length (find_all ''memberdef'' soup)" by (rule len)
    show "distinct (map fst es @ map (fst \<circ> snd) es) \<longrightarrow>
            length ?tbl = 2 * length es
            \<and> (\<forall>(i, n, d) \<in> set es. map_of ?tbl i = Some d \<and> map_of ?tbl n = Some d)"
      using all by (rule impI)
    show "\<forall>pre i n d post.
            es = pre @ (i, n, d) # post
            \<longrightarrow> (\<forall>(i', n', d') \<in> set post. i' \<noteq> n \<and> n' \<noteq> n)
            \<longrightarrow> map_of ?tbl n = Some d"
      using name_key by (intro allI impI)
    show "distinct (map fst es) \<longrightarrow> fst ` set es \<inter> (fst \<circ> snd) ` set es = {}
            \<longrightarrow> (\<forall>(i, n, d) \<in> set es. map_of ?tbl i = Some d)"
    proof (intro impI ballI)
      fix e
      assume d: "distinct (map fst es)" and j: "fst ` set es \<inter> (fst \<circ> snd) ` set es = {}"
        and e: "e \<in> set es"
      obtain i n v where "e = (i, n, v)" by (cases e)
      with id_key [OF _ d j] e show "case e of (i, n, d) \<Rightarrow> map_of ?tbl i = Some d"
        by simp
    qed
  qed
qed

text \<open>A member with the three fields the table needs, a document with two members of
  different names and one with two members of the same name.\<close>

definition memberdef :: "string \<Rightarrow> string \<Rightarrow> string \<Rightarrow> node" where
  "memberdef ref_id name label =
     Tag ''memberdef'' [(''id'', ref_id)]
       [Tag ''name'' [] [Text name], Tag ''manual'' [(''name'', name), (''label'', label)] []]"

definition two_member_soup :: node where
  "two_member_soup =
     Tag ''[document]'' []
       [Tag ''compounddef'' []
          [memberdef ''group_1a'' ''Yield'' ''sel4_yield'', memberdef ''group_1b'' ''Send'' ''sel4_send'']]"

definition clash_soup :: node where
  "clash_soup =
     Tag ''[document]'' []
       [Tag ''compounddef'' []
          [memberdef ''group_1a'' ''Yield'' ''sel4_yield'', memberdef ''group_1b'' ''Yield'' ''other'']]"

lemma member_ref_memberdef:
  "member_ref (memberdef i n l) = Inr (i, n, \<lparr>d_name = spec_escape n, d_label = l, d_ref = i\<rparr>)"
  by (simp add: member_ref_def memberdef_def find_tag_def find_all_def text_escape_eq)

lemma find_all_two: "find_all ''memberdef'' two_member_soup
    = [memberdef ''group_1a'' ''Yield'' ''sel4_yield'', memberdef ''group_1b'' ''Send'' ''sel4_send'']"
  by (simp add: two_member_soup_def memberdef_def find_all_def)

lemma find_all_clash: "find_all ''memberdef'' clash_soup
    = [memberdef ''group_1a'' ''Yield'' ''sel4_yield'', memberdef ''group_1b'' ''Yield'' ''other'']"
  by (simp add: clash_soup_def memberdef_def find_all_def)

theorem ref_dict_entries_witness:
  "emap member_ref (find_all ''memberdef'' two_member_soup)
     = Inr [(''group_1a'', ''Yield'', \<lparr>d_name = ''Yield'', d_label = ''sel4_yield'', d_ref = ''group_1a''\<rparr>),
            (''group_1b'', ''Send'', \<lparr>d_name = ''Send'', d_label = ''sel4_send'', d_ref = ''group_1b''\<rparr>)]
   \<and> distinct ([''group_1a'', ''group_1b''] @ [''Yield'', ''Send''])
   \<and> length (projr (build_ref_dict two_member_soup)) = 4
   \<and> map_of (projr (build_ref_dict two_member_soup)) ''group_1b''
       = Some \<lparr>d_name = ''Send'', d_label = ''sel4_send'', d_ref = ''group_1b''\<rparr>
   \<and> map_of (projr (build_ref_dict two_member_soup)) ''Send''
       = Some \<lparr>d_name = ''Send'', d_label = ''sel4_send'', d_ref = ''group_1b''\<rparr>
   \<and> emap member_ref (find_all ''memberdef'' clash_soup)
       = Inr ([(''group_1a'', ''Yield'', \<lparr>d_name = ''Yield'', d_label = ''sel4_yield'', d_ref = ''group_1a''\<rparr>)]
              @ (''group_1b'', ''Yield'', \<lparr>d_name = ''Yield'', d_label = ''other'', d_ref = ''group_1b''\<rparr>) # [])
   \<and> map_of (projr (build_ref_dict clash_soup)) ''Yield''
       = Some \<lparr>d_name = ''Yield'', d_label = ''other'', d_ref = ''group_1b''\<rparr>"
proof -
  let ?d1 = "\<lparr>d_name = ''Yield'', d_label = ''sel4_yield'', d_ref = ''group_1a''\<rparr>"
  let ?d2 = "\<lparr>d_name = ''Send'', d_label = ''sel4_send'', d_ref = ''group_1b''\<rparr>"
  let ?d3 = "\<lparr>d_name = ''Yield'', d_label = ''other'', d_ref = ''group_1b''\<rparr>"
  let ?es = "[(''group_1a'', ''Yield'', ?d1), (''group_1b'', ''Send'', ?d2)]"
  have e1: "emap member_ref (find_all ''memberdef'' two_member_soup) = Inr ?es"
    by (simp add: find_all_two member_ref_memberdef spec_escape_def)
  have dist: "distinct (map fst ?es @ map (fst \<circ> snd) ?es)"
    by simp
  from ref_dict_entries [OF e1] obtain tbl where
    b: "build_ref_dict two_member_soup = Inr tbl"
    and all: "distinct (map fst ?es @ map (fst \<circ> snd) ?es) \<longrightarrow>
                length tbl = 2 * length ?es
                \<and> (\<forall>(i, n, d) \<in> set ?es. map_of tbl i = Some d \<and> map_of tbl n = Some d)"
    by blast
  from all dist have r1: "length tbl = 4"
    and r2: "map_of tbl ''group_1b'' = Some ?d2" and r3: "map_of tbl ''Send'' = Some ?d2"
    by auto
  have e2: "emap member_ref (find_all ''memberdef'' clash_soup)
              = Inr ([(''group_1a'', ''Yield'', ?d1)] @ (''group_1b'', ''Yield'', ?d3) # [])"
    by (simp add: find_all_clash member_ref_memberdef spec_escape_def)
  from ref_dict_entries [OF e2] obtain tbl' where
    b': "build_ref_dict clash_soup = Inr tbl'"
    and last: "\<forall>pre i n d post.
                 [(''group_1a'', ''Yield'', ?d1)] @ (''group_1b'', ''Yield'', ?d3) # [] = pre @ (i, n, d) # post
                 \<longrightarrow> (\<forall>(i', n', d') \<in> set post. i' \<noteq> n \<and> n' \<noteq> n)
                 \<longrightarrow> map_of tbl' n = Some d"
    by blast
  from last [rule_format, of "[(''group_1a'', ''Yield'', ?d1)]" "''group_1b''" "''Yield''" ?d3 "[]"]
  have r4: "map_of tbl' ''Yield'' = Some ?d3"
    by simp
  from e1 e2 b b' r1 r2 r3 r4 show ?thesis
    by simp
qed

subsection \<open>Raw name keys, escaped name values\<close>

lemma length_spec_escape: "length s \<le> length (spec_escape s)"
  by (induction s) (auto simp: spec_escape_def)

lemma spec_escape_keeps_underscore:
  "CHR ''_'' \<in> set s \<Longrightarrow> CHR ''_'' \<in> set (spec_escape s)"
  by (induction s) (auto simp: spec_escape_def)

lemma spec_escape_longer:
  "CHR ''_'' \<in> set s \<Longrightarrow> length s < length (spec_escape s)"
proof (induction s)
  case Nil
  then show ?case by simp
next
  case (Cons c s)
  show ?case
  proof (cases "c = CHR ''_''")
    case True
    with length_spec_escape [of s] show ?thesis
      by (simp add: spec_escape_def)
  next
    case False
    with Cons show ?thesis
      by (simp add: spec_escape_def)
  qed
qed

text \<open>A document whose second member has, as its id, the name of the first.\<close>

definition id_name_clash_soup :: node where
  "id_name_clash_soup =
     Tag ''[document]'' []
       [Tag ''compounddef'' []
          [memberdef ''group_a'' ''b_1'' ''label_b'', memberdef ''b_1'' ''c_2'' ''label_c'']]"

text \<open>
  C10 as stated fails: it does not hold for every member. When the raw name of a member is
  also the id of a later member, the key that is the name holds the later member's
  descriptor: its stored name is the escaped name of the other member, and a reference by
  name to the first member renders the other one.
\<close>

theorem name_key_counterexample:
  "emap member_ref (find_all ''memberdef'' id_name_clash_soup)
     = Inr [(''group_a'', ''b_1'',
             \<lparr>d_name = ''b'' @ [BS] @ ''_1'', d_label = ''label_b'', d_ref = ''group_a''\<rparr>),
            (''b_1'', ''c_2'',
             \<lparr>d_name = ''c'' @ [BS] @ ''_2'', d_label = ''label_c'', d_ref = ''b_1''\<rparr>)]
   \<and> text_escape ''b_1'' = Inr (''b'' @ [BS] @ ''_1'')
   \<and> map_of (projr (build_ref_dict id_name_clash_soup)) ''b_1''
       = Some \<lparr>d_name = ''c'' @ [BS] @ ''_2'', d_label = ''label_c'', d_ref = ''b_1''\<rparr>
   \<and> parse_para (Tag ''nameref'' [(''name'', ''b_1'')] []) (projr (build_ref_dict id_name_clash_soup))
       = Inr ([BS] @ ''apifunc{c'' @ [BS] @ ''_2}{label_c}'')"
proof -
  have fa: "find_all ''memberdef'' id_name_clash_soup
              = [memberdef ''group_a'' ''b_1'' ''label_b'', memberdef ''b_1'' ''c_2'' ''label_c'']"
    by (simp add: id_name_clash_soup_def memberdef_def find_all_def)
  have tbl: "build_ref_dict id_name_clash_soup
      = Inr [(''group_a'', \<lparr>d_name = ''b'' @ [BS] @ ''_1'', d_label = ''label_b'', d_ref = ''group_a''\<rparr>),
             (''b_1'', \<lparr>d_name = ''c'' @ [BS] @ ''_2'', d_label = ''label_c'', d_ref = ''b_1''\<rparr>),
             (''c_2'', \<lparr>d_name = ''c'' @ [BS] @ ''_2'', d_label = ''label_c'', d_ref = ''b_1''\<rparr>)]"
    by (simp add: build_ref_dict_def fa member_ref_memberdef spec_escape_def)
  show ?thesis
    by (simp add: tbl fa member_ref_memberdef spec_escape_def text_escape_eq
          nref_to_format_def ref_format_def)
qed

text \<open>
  C10, amended. For every member of a document whose members all yield their entries, and
  whose raw name is not the id of a member: the table holds the raw name as a key, and the
  descriptor under it stores the escaped name. A reference by name that carries the raw
  name renders as the cross-reference with the name escaped once; when the name has an
  underscore the stored name differs from the raw one and escaping it again would change
  it; and a reference that carries the escaped name, which is not a key, fails with
  \<^verbatim>\<open>KeyError\<close>.
\<close>

theorem name_key_raw_value_escaped:
  assumes "emap member_ref (find_all ''memberdef'' soup) = Inr es"
    and "(i, n, d) \<in> set es"
    and "n \<notin> fst ` set es"
  shows "\<exists>ref_dict d'.
           build_ref_dict soup = Inr ref_dict
         \<and> map_of ref_dict n = Some d'
         \<and> text_escape n = Inr (d_name d')
         \<and> (map_of a ''name'' = Some n \<longrightarrow>
              parse_para (Tag ''nameref'' a cs) ref_dict
                = Inr ([BS] @ ''apifunc{'' @ d_name d' @ ''}{'' @ d_label d' @ ''}''))
         \<and> (CHR ''_'' \<in> set n \<longrightarrow>
              d_name d' \<noteq> n \<and> text_escape (d_name d') \<noteq> Inr (d_name d'))
         \<and> (map_of a ''name'' = Some (d_name d') \<longrightarrow> map_of ref_dict (d_name d') = None \<longrightarrow>
              parse_para (Tag ''nameref'' a cs) ref_dict = Inl KeyError)"
proof -
  let ?tbl = "stores es []"
  have built: "build_ref_dict soup = Inr ?tbl"
    using ref_dict_loop_stores [OF assms(1)] by (simp add: build_ref_dict_def)
  from assms(2) have "n \<in> fst ` set ?tbl"
    unfolding stores_keys by force
  then obtain d' where look: "map_of ?tbl n = Some d'"
    by (metis map_of_eq_None_iff not_Some_eq)
  from stores_value [OF look] assms(3) obtain i' where mem: "(i', n, d') \<in> set es"
    by force
  from emap_set [OF assms(1) mem] member_ref_fields have esc: "text_escape n = Inr (d_name d')"
    by blast
  then have nm: "d_name d' = spec_escape n"
    by (simp add: text_escape_eq)
  from look have ne: "?tbl \<noteq> []"
    by auto
  have render: "parse_para (Tag ''nameref'' a cs) ?tbl
                  = Inr ([BS] @ ''apifunc{'' @ d_name d' @ ''}{'' @ d_label d' @ ''}'')"
    if "map_of a ''name'' = Some n"
    using that look ne by (simp add: nref_to_format_def ref_format_def)
  have once: "d_name d' \<noteq> n \<and> text_escape (d_name d') \<noteq> Inr (d_name d')"
    if u: "CHR ''_'' \<in> set n"
  proof -
    from spec_escape_longer [OF u] have a: "length n < length (spec_escape n)" .
    from spec_escape_keeps_underscore [OF u] have b: "CHR ''_'' \<in> set (spec_escape n)" .
    from spec_escape_longer [OF b]
    have "length (spec_escape n) < length (spec_escape (spec_escape n))" .
    with a show ?thesis
      unfolding nm text_escape_eq by auto
  qed
  have miss: "parse_para (Tag ''nameref'' a cs) ?tbl = Inl KeyError"
    if "map_of a ''name'' = Some (d_name d')" "map_of ?tbl (d_name d') = None"
    using that ne by (simp add: nref_to_format_def ref_format_def)
  show ?thesis
  proof (intro exI conjI impI)
    show "build_ref_dict soup = Inr ?tbl" by (rule built)
    show "map_of ?tbl n = Some d'" by (rule look)
    show "text_escape n = Inr (d_name d')" by (rule esc)
    show "parse_para (Tag ''nameref'' a cs) ?tbl
            = Inr ([BS] @ ''apifunc{'' @ d_name d' @ ''}{'' @ d_label d' @ ''}'')"
      if "map_of a ''name'' = Some n"
      using that by (rule render)
    show "d_name d' \<noteq> n" if "CHR ''_'' \<in> set n"
      using once [OF that] by simp
    show "text_escape (d_name d') \<noteq> Inr (d_name d')" if "CHR ''_'' \<in> set n"
      using once [OF that] by simp
    show "parse_para (Tag ''nameref'' a cs) ?tbl = Inl KeyError"
      if "map_of a ''name'' = Some (d_name d')" "map_of ?tbl (d_name d') = None"
      using that by (rule miss)
  qed
qed

definition yield_soup :: node where
  "yield_soup =
     Tag ''[document]'' []
       [Tag ''compounddef'' [] [memberdef ''group_1a'' ''seL4_Yield'' ''sel4_yield'']]"

theorem name_key_raw_value_escaped_witness:
  "emap member_ref (find_all ''memberdef'' yield_soup)
     = Inr [(''group_1a'', ''seL4_Yield'',
             \<lparr>d_name = ''seL4'' @ [BS] @ ''_Yield'', d_label = ''sel4_yield'', d_ref = ''group_1a''\<rparr>)]
   \<and> ''seL4_Yield'' \<notin> fst ` set [(''group_1a'', ''seL4_Yield'',
             \<lparr>d_name = ''seL4'' @ [BS] @ ''_Yield'', d_label = ''sel4_yield'', d_ref = ''group_1a''\<rparr>)]
   \<and> build_ref_dict yield_soup = Inr yield_dict
   \<and> CHR ''_'' \<in> set ''seL4_Yield''
   \<and> parse_para (Tag ''nameref'' [(''name'', ''seL4_Yield'')] []) yield_dict
       = Inr ([BS] @ ''apifunc{seL4'' @ [BS] @ ''_Yield}{sel4_yield}'')
   \<and> parse_para (Tag ''nameref'' [(''name'', ''seL4'' @ [BS] @ ''_Yield'')] []) yield_dict
       = Inl KeyError"
proof -
  let ?d = "\<lparr>d_name = ''seL4'' @ [BS] @ ''_Yield'', d_label = ''sel4_yield'', d_ref = ''group_1a''\<rparr>"
  let ?es = "[(''group_1a'', ''seL4_Yield'', ?d)]"
  have fa: "find_all ''memberdef'' yield_soup = [memberdef ''group_1a'' ''seL4_Yield'' ''sel4_yield'']"
    by (simp add: yield_soup_def memberdef_def find_all_def)
  have e: "emap member_ref (find_all ''memberdef'' yield_soup) = Inr ?es"
    by (simp add: fa member_ref_memberdef spec_escape_def)
  have m: "(''group_1a'', ''seL4_Yield'', ?d) \<in> set ?es"
    by simp
  have k: "''seL4_Yield'' \<notin> fst ` set ?es"
    by simp
  have b: "build_ref_dict yield_soup = Inr yield_dict"
    by (simp add: build_ref_dict_def fa member_ref_memberdef spec_escape_def yield_dict_def)
  have u: "CHR ''_'' \<in> set ''seL4_Yield''"
    by simp
  have a1: "map_of [(''name'', ''seL4_Yield'')] ''name'' = Some ''seL4_Yield''"
    by simp
  from name_key_raw_value_escaped [OF e m k, of "[(''name'', ''seL4_Yield'')]" "[]"] b a1
  have r1: "parse_para (Tag ''nameref'' [(''name'', ''seL4_Yield'')] []) yield_dict
              = Inr ([BS] @ ''apifunc{seL4'' @ [BS] @ ''_Yield}{sel4_yield}'')"
    by (auto simp: yield_dict_def)
  have a2: "map_of [(''name'', ''seL4'' @ [BS] @ ''_Yield'')] ''name'' = Some (''seL4'' @ [BS] @ ''_Yield'')"
    by simp
  have miss: "map_of yield_dict (''seL4'' @ [BS] @ ''_Yield'') = None"
    by (simp add: yield_dict_def)
  from name_key_raw_value_escaped [OF e m k, of "[(''name'', ''seL4'' @ [BS] @ ''_Yield'')]" "[]"]
    b a2 miss
  have r2: "parse_para (Tag ''nameref'' [(''name'', ''seL4'' @ [BS] @ ''_Yield'')] []) yield_dict
              = Inl KeyError"
    by (auto simp: yield_dict_def)
  from e k b u r1 r2 show ?thesis
    by simp
qed

end
